theory Spec2Isabelle
  imports Complex_Main
begin

section \<open>JavaScript values\<close>

text \<open>
  The SDK is dynamically typed: request parameters, header claims and responses are
  JavaScript values. A number of the model is a safe integer, an integer of magnitude
  below \<open>2\<^sup>5\<^sup>3\<close>; these are doubles, and the runtime prints them in plain
  decimal. A string is the list of its code units, which the model takes below 256. An
  object is the list of its own enumerable properties in the order of their creation;
  when a list names a key twice the first entry is the property. Objects are plain data
  objects: none shadows the conversion methods of its prototype.
\<close>

typedef safe_int = "{i :: int. \<bar>i\<bar> \<le> 9007199254740991}"
  by (rule exI [of _ 0]) simp

datatype jsval =
    JUndefined
  | JNull
  | JBool bool
  | JNum safe_int
  | JStr string
  | JArr "jsval list"
  | JObj "(string \<times> jsval) list"

type_synonym jsobj = "(string \<times> jsval) list"

datatype js_error = TypeError | SyntaxError

text \<open>
  Decimal rendering of an integer, as \<^verbatim>\<open>Number.prototype.toString\<close> gives it for the
  safe integers, to which alone it is applied.
\<close>

definition digit_char :: "nat \<Rightarrow> char" where
  "digit_char d = ''0123456789'' ! d"

function nat_to_string :: "nat \<Rightarrow> string" where
  "nat_to_string n =
     (if n < 10 then [digit_char n] else nat_to_string (n div 10) @ [digit_char (n mod 10)])"
  by pat_completeness auto
termination
  by (relation "measure id") auto

definition number_to_string :: "int \<Rightarrow> string" where
  "number_to_string i =
     (if i < 0 then CHR ''-'' # nat_to_string (nat (- i)) else nat_to_string (nat i))"

text \<open>\<^verbatim>\<open>Array.prototype.join\<close> with a separator.\<close>

fun join :: "string \<Rightarrow> string list \<Rightarrow> string" where
  "join sep [] = []"
| "join sep [x] = x"
| "join sep (x # y # ys) = x @ sep @ join sep (y # ys)"

text \<open>
  ToString, the conversion that \<^verbatim>\<open>"max=" + params.max\<close> applies to its right operand.
  A plain object converts to \<^verbatim>\<open>[object Object]\<close>; an array joins its elements with
  commas, \<^verbatim>\<open>null\<close> and \<^verbatim>\<open>undefined\<close> elements giving the empty string.
\<close>

fun to_string :: "jsval \<Rightarrow> string" where
  "to_string JUndefined = ''undefined''"
| "to_string JNull = ''null''"
| "to_string (JBool b) = (if b then ''true'' else ''false'')"
| "to_string (JNum i) = number_to_string (Rep_safe_int i)"
| "to_string (JStr s) = s"
| "to_string (JArr xs) =
     join '','' (map (\<lambda>x. if x = JUndefined \<or> x = JNull then [] else to_string x) xs)"
| "to_string (JObj kvs) = ''[object Object]''"

subsection \<open>Numbers as the arithmetic sees them\<close>

text \<open>
  The values of the type Number that arithmetic produces: NaN, the two infinities, and
  the finite doubles, each given by its exact rational value (the two zeros are not
  told apart; no comparison distinguishes them).
\<close>

datatype jsnum = NaN | Num rat | PosInf | NegInf

text \<open>
  Rounding a rational to the nearest double, ties to even. \<open>binade q\<close> is the integer
  \<open>e\<close> with \<open>2\<^sup>e \<le> q < 2\<^sup>e\<^sup>+\<^sup>1\<close>; a double in that binade is a multiple of
  \<open>2\<^sup>e\<^sup>-\<^sup>5\<^sup>2\<close>, and of \<open>2\<^sup>-\<^sup>1\<^sup>0\<^sup>7\<^sup>4\<close> in the subnormal range; a result of
  \<open>2\<^sup>1\<^sup>0\<^sup>2\<^sup>4\<close> or more is infinite.
\<close>

function log2_up :: "rat \<Rightarrow> int \<Rightarrow> int" where
  "log2_up q e = (if q < 2 then e else log2_up (q / 2) (e + 1))"
  by pat_completeness auto
termination
proof (relation "measure (\<lambda>(q, e). nat \<lfloor>q\<rfloor>)")
  show "wf (measure (\<lambda>(q, e). nat \<lfloor>q\<rfloor>))" by simp
next
  fix q :: rat and e :: int
  assume "\<not> q < 2"
  then have one: "1 \<le> \<lfloor>q\<rfloor>"
    by (simp add: le_floor_iff)
  then have "(1::rat) \<le> of_int \<lfloor>q\<rfloor>"
    by (metis of_int_1 of_int_le_iff)
  moreover have "q < of_int \<lfloor>q\<rfloor> + 1"
    by linarith
  ultimately have "q / 2 < of_int \<lfloor>q\<rfloor>"
    by linarith
  then have "\<lfloor>q / 2\<rfloor> < \<lfloor>q\<rfloor>"
    by (simp add: floor_less_iff)
  with one show "((q / 2, e + 1), (q, e)) \<in> measure (\<lambda>(q, e). nat \<lfloor>q\<rfloor>)"
    by simp
qed

function log2_down :: "rat \<Rightarrow> int \<Rightarrow> int" where
  "log2_down q e = (if q \<le> 0 \<or> 1 \<le> q then e else log2_down (2 * q) (e - 1))"
  by pat_completeness auto
termination
proof (relation "measure (\<lambda>(q, e). nat \<lfloor>1 / q\<rfloor>)")
  show "wf (measure (\<lambda>(q, e). nat \<lfloor>1 / q\<rfloor>))" by simp
next
  fix q :: rat and e :: int
  assume "\<not> (q \<le> 0 \<or> 1 \<le> q)"
  define y where "y = 1 / q"
  from \<open>\<not> (q \<le> 0 \<or> 1 \<le> q)\<close> have "1 \<le> y"
    by (simp add: y_def)
  then have one: "1 \<le> \<lfloor>y\<rfloor>"
    by (simp add: le_floor_iff)
  then have "(1::rat) \<le> of_int \<lfloor>y\<rfloor>"
    by (metis of_int_1 of_int_le_iff)
  moreover have "y < of_int \<lfloor>y\<rfloor> + 1"
    by linarith
  ultimately have "y / 2 < of_int \<lfloor>y\<rfloor>"
    by linarith
  then have "\<lfloor>y / 2\<rfloor> < \<lfloor>y\<rfloor>"
    by (simp only: floor_less_iff)
  moreover have "1 / (2 * q) = y / 2"
    by (simp add: y_def)
  ultimately have "\<lfloor>1 / (2 * q)\<rfloor> < \<lfloor>1 / q\<rfloor>" and "1 \<le> \<lfloor>1 / q\<rfloor>"
    using one by (simp_all only: y_def)
  then show "((2 * q, e - 1), (q, e)) \<in> measure (\<lambda>(q, e). nat \<lfloor>1 / q\<rfloor>)"
    by simp
qed

definition binade :: "rat \<Rightarrow> int" where
  "binade q = (if 1 \<le> q then log2_up q 0 else log2_down q 0)"

definition round_half_even :: "rat \<Rightarrow> int" where
  "round_half_even y =
     (let f = \<lfloor>y\<rfloor>; r = y - of_int f
      in if r < 1 / 2 then f else if 1 / 2 < r then f + 1 else if even f then f else f + 1)"

definition round_double :: "rat \<Rightarrow> jsnum" where
  "round_double q =
     (if q = 0 then Num 0
      else let a = \<bar>q\<bar>;
               p = max (binade a - 52) (- 1074);
               v = of_int (round_half_even (a / 2 powi p)) * 2 powi p
           in if 2 powi 1024 \<le> v then (if 0 < q then PosInf else NegInf)
              else Num (if 0 < q then v else - v))"

text \<open>Subtraction and the comparison \<^verbatim>\<open>>\<close> of Numbers.\<close>

fun js_sub :: "jsnum \<Rightarrow> jsnum \<Rightarrow> jsnum" where
  "js_sub NaN y = NaN"
| "js_sub x NaN = NaN"
| "js_sub (Num a) (Num b) = round_double (a - b)"
| "js_sub (Num a) PosInf = NegInf"
| "js_sub (Num a) NegInf = PosInf"
| "js_sub PosInf PosInf = NaN"
| "js_sub PosInf y = PosInf"
| "js_sub NegInf NegInf = NaN"
| "js_sub NegInf y = NegInf"

fun js_gt :: "jsnum \<Rightarrow> jsnum \<Rightarrow> bool" where
  "js_gt NaN y = False"
| "js_gt x NaN = False"
| "js_gt (Num a) (Num b) = (b < a)"
| "js_gt (Num a) PosInf = False"
| "js_gt (Num a) NegInf = True"
| "js_gt PosInf PosInf = False"
| "js_gt PosInf y = True"
| "js_gt NegInf y = False"

text \<open>
  ToNumber on a string: white space is trimmed at both ends; the empty string is 0; a
  literal with the prefix \<^verbatim>\<open>0x\<close>, \<^verbatim>\<open>0o\<close> or \<^verbatim>\<open>0b\<close> (in either case) is an unsigned
  integer in that radix; otherwise an optional sign is followed by \<^verbatim>\<open>Infinity\<close> or by a
  decimal literal with an optional fraction and an optional exponent. The mathematical
  value is rounded to a double. Any other string is NaN.
\<close>

definition is_ws :: "char \<Rightarrow> bool" where
  "is_ws c = (c \<in> set [CHR 0x09, CHR 0x0A, CHR 0x0B, CHR 0x0C, CHR 0x0D, CHR '' '', CHR 0xA0])"

definition trim :: "string \<Rightarrow> string" where
  "trim s = rev (dropWhile is_ws (rev (dropWhile is_ws s)))"

definition is_digit :: "char \<Rightarrow> bool" where
  "is_digit c = (c \<in> set ''0123456789'')"

fun digits_value :: "nat \<Rightarrow> string \<Rightarrow> nat" where
  "digits_value acc [] = acc"
| "digits_value acc (c # cs) = digits_value (10 * acc + (of_char c - 48)) cs"

definition all_digits :: "string \<Rightarrow> bool" where
  "all_digits ds = (ds \<noteq> [] \<and> list_all is_digit ds)"

definition radix_digit :: "char \<Rightarrow> nat option" where
  "radix_digit c =
     (if is_digit c then Some (of_char c - 48)
      else if c \<in> set ''abcdef'' then Some (of_char c - 87)
      else if c \<in> set ''ABCDEF'' then Some (of_char c - 55)
      else None)"

fun radix_value :: "nat \<Rightarrow> nat \<Rightarrow> string \<Rightarrow> nat option" where
  "radix_value b acc [] = Some acc"
| "radix_value b acc (c # cs) =
     (case radix_digit c of
        None \<Rightarrow> None
      | Some d \<Rightarrow> if d < b then radix_value b (b * acc + d) cs else None)"

definition radix_prefix :: "string \<Rightarrow> (nat \<times> string) option" where
  "radix_prefix t =
     (case t of
        c0 # c1 # rest \<Rightarrow>
          if c0 \<noteq> CHR ''0'' then None
          else if c1 \<in> set ''xX'' then Some (16, rest)
          else if c1 \<in> set ''oO'' then Some (8, rest)
          else if c1 \<in> set ''bB'' then Some (2, rest)
          else None
      | _ \<Rightarrow> None)"

text \<open>The exponent part that may end a decimal literal; \<open>None\<close> when it is malformed.\<close>

definition exponent_part :: "string \<Rightarrow> int option" where
  "exponent_part r =
     (case r of
        [] \<Rightarrow> Some 0
      | c # t \<Rightarrow>
          if c \<notin> set ''eE'' then None
          else (case t of
                  [] \<Rightarrow> None
                | s # u \<Rightarrow>
                    if s = CHR ''+'' then
                      (if all_digits u then Some (int (digits_value 0 u)) else None)
                    else if s = CHR ''-'' then
                      (if all_digits u then Some (- int (digits_value 0 u)) else None)
                    else if all_digits t then Some (int (digits_value 0 t))
                    else None))"

text \<open>The mathematical value of an unsigned decimal literal; \<open>None\<close> when it is none.\<close>

definition unsigned_decimal :: "string \<Rightarrow> rat option" where
  "unsigned_decimal s =
     (let ip = takeWhile is_digit s; r1 = dropWhile is_digit s
      in case r1 of
           [] \<Rightarrow> if ip = [] then None else Some (of_nat (digits_value 0 ip))
         | c # t \<Rightarrow>
             if c = CHR ''.'' then
               (let fp = takeWhile is_digit t; r2 = dropWhile is_digit t
                in if ip = [] \<and> fp = [] then None
                   else (case exponent_part r2 of
                           None \<Rightarrow> None
                         | Some x \<Rightarrow>
                             Some (of_nat (digits_value 0 (ip @ fp))
                                   * 10 powi (x - int (length fp)))))
             else if ip = [] then None
             else (case exponent_part r1 of
                     None \<Rightarrow> None
                   | Some x \<Rightarrow> Some (of_nat (digits_value 0 ip) * 10 powi x)))"

definition decimal_number :: "string \<Rightarrow> jsnum" where
  "decimal_number t =
     (let negative = (t \<noteq> [] \<and> hd t = CHR ''-'');
          u = (if t \<noteq> [] \<and> hd t \<in> set ''+-'' then tl t else t)
      in if u = ''Infinity'' then (if negative then NegInf else PosInf)
         else case unsigned_decimal u of
                None \<Rightarrow> NaN
              | Some mv \<Rightarrow> round_double (if negative then - mv else mv))"

definition string_to_number :: "string \<Rightarrow> jsnum" where
  "string_to_number s =
     (let t = trim s
      in if t = [] then Num 0
         else case radix_prefix t of
                Some (b, ds) \<Rightarrow>
                  (case radix_value b 0 ds of
                     None \<Rightarrow> NaN
                   | Some v \<Rightarrow> if ds = [] then NaN else round_double (of_nat v))
              | None \<Rightarrow> decimal_number t)"

text \<open>
  ToNumber, the conversion that the subtraction in the freshness check applies to the
  timestamp claim. A plain object converts through \<^verbatim>\<open>[object Object]\<close> to NaN, an array
  through its string.
\<close>

fun to_number :: "jsval \<Rightarrow> jsnum" where
  "to_number JUndefined = NaN"
| "to_number JNull = Num 0"
| "to_number (JBool b) = Num (if b then 1 else 0)"
| "to_number (JNum i) = Num (of_int (Rep_safe_int i))"
| "to_number (JStr s) = string_to_number s"
| "to_number (JArr xs) = string_to_number (to_string (JArr xs))"
| "to_number (JObj kvs) = NaN"

subsection \<open>Objects\<close>

text \<open>Reading a property of an object: \<^verbatim>\<open>undefined\<close> when the object has no such property.\<close>

definition own_prop :: "jsobj \<Rightarrow> string \<Rightarrow> jsval" where
  "own_prop obj k = (case map_of obj k of None \<Rightarrow> JUndefined | Some v \<Rightarrow> v)"

text \<open>
  The order in which \<^verbatim>\<open>Object.keys\<close> and \<^verbatim>\<open>for ... in\<close> visit the keys of an
  object: first the keys that are array indices (the canonical decimal numerals up to
  \<open>2\<^sup>3\<^sup>2 - 2\<close>) in ascending numeric order, then the other keys in the order of their
  creation.
\<close>

definition array_index :: "string \<Rightarrow> nat option" where
  "array_index k =
     (if all_digits k \<and> (k = ''0'' \<or> hd k \<noteq> CHR ''0'') \<and> digits_value 0 k \<le> 4294967294
      then Some (digits_value 0 k) else None)"

definition is_index :: "string \<Rightarrow> bool" where
  "is_index k = (array_index k \<noteq> None)"

definition index_rank :: "string \<Rightarrow> nat" where
  "index_rank k = (case array_index k of None \<Rightarrow> 0 | Some n \<Rightarrow> n)"

definition own_keys :: "jsobj \<Rightarrow> string list" where
  "own_keys obj = rev (remdups (rev (map fst obj)))"

definition object_keys :: "jsobj \<Rightarrow> string list" where
  "object_keys obj =
     sort_key index_rank (filter is_index (own_keys obj))
     @ filter (\<lambda>k. \<not> is_index k) (own_keys obj)"

text \<open>Assignment \<^verbatim>\<open>obj[k] = v\<close>: an existing property keeps its place, a new one goes last.\<close>

fun obj_set :: "jsobj \<Rightarrow> string \<Rightarrow> jsval \<Rightarrow> jsobj" where
  "obj_set [] k v = [(k, v)]"
| "obj_set ((k', v') # kvs) k v =
     (if k' = k then (k, v) # kvs else (k', v') # obj_set kvs k v)"

text \<open>
  Reading a property \<^verbatim>\<open>v.k\<close> of any value that has properties (reading one of
  \<^verbatim>\<open>undefined\<close> or \<^verbatim>\<open>null\<close> throws, which the callers below write out). Strings and
  arrays have their indices and \<^verbatim>\<open>length\<close>; the names the SDK reads are not
  properties of the built-in prototypes.
\<close>

definition index_of_key :: "nat \<Rightarrow> string \<Rightarrow> nat option" where
  "index_of_key n k = find (\<lambda>i. nat_to_string i = k) [0..<n]"

definition length_value :: "nat \<Rightarrow> jsval" where
  "length_value n = JNum (Abs_safe_int (int n))"

fun get :: "jsval \<Rightarrow> string \<Rightarrow> jsval" where
  "get (JObj kvs) k = own_prop kvs k"
| "get (JStr s) k =
     (if k = ''length'' then length_value (length s)
      else case index_of_key (length s) k of None \<Rightarrow> JUndefined | Some i \<Rightarrow> JStr [s ! i])"
| "get (JArr xs) k =
     (if k = ''length'' then length_value (length xs)
      else case index_of_key (length xs) k of None \<Rightarrow> JUndefined | Some i \<Rightarrow> xs ! i)"
| "get v k = JUndefined"

definition nullish :: "jsval \<Rightarrow> bool" where
  "nullish v = (v = JUndefined \<or> v = JNull)"

text \<open>The keys a \<^verbatim>\<open>for ... in\<close> loop visits; the loop visits none for a primitive.\<close>

fun for_in_keys :: "jsval \<Rightarrow> string list" where
  "for_in_keys (JObj kvs) = object_keys kvs"
| "for_in_keys (JStr s) = map nat_to_string [0..<length s]"
| "for_in_keys (JArr xs) = map nat_to_string [0..<length xs]"
| "for_in_keys v = []"

section \<open>simplifyUtils\<close>

definition isLiveKey :: "string \<Rightarrow> bool" where
  "isLiveKey key = (length key \<ge> 4 \<and> take 4 key = ''lvpb'')"

definition isUndefined :: "jsval \<Rightarrow> bool" where
  "isUndefined v = (v = JUndefined)"

section \<open>Errors and the completion callback\<close>

text \<open>
  The two error classes of the SDK; \<open>API\<close> carries the diagnostic payload. A callback
  invocation is the pair of its arguments: the error (\<open>None\<close> for \<^verbatim>\<open>null\<close>) and the result.
\<close>

datatype sdk_error = API string jsval | JWS string

type_synonym callback_call = "sdk_error option \<times> jsval"

section \<open>simplifyJws: header validation\<close>

definition HEADERS_URI :: string where
  "HEADERS_URI = ''api.simplifycommerce.com/uri''"

definition HEADERS_TIMESTAMP :: string where
  "HEADERS_TIMESTAMP = ''api.simplifycommerce.com/timestamp''"

definition HEADERS_NONCE :: string where
  "HEADERS_NONCE = ''api.simplifycommerce.com/nonce''"

definition HEADERS_TOKEN :: string where
  "HEADERS_TOKEN = ''api.simplifycommerce.com/token''"

definition HEADERS_ALGORITHM :: string where
  "HEADERS_ALGORITHM = ''HS256''"

definition HEADERS_TYPE :: string where
  "HEADERS_TYPE = ''JWS''"

definition HEADERS_MAX_TIMESTAMP_DIFF :: int where
  "HEADERS_MAX_TIMESTAMP_DIFF = 1000 * 60 * 5"

text \<open>
  \<^verbatim>\<open>new Date().getTime() - header[HEADERS.TIMESTAMP] > HEADERS.MAX_TIMESTAMP_DIFF\<close>.
  The clock reading \<open>now\<close> is a time value, an integral number of milliseconds; the
  claim is converted to a number, the difference is rounded to a double, and a
  comparison with NaN is false.
\<close>

definition timestamp_expired :: "int \<Rightarrow> jsval \<Rightarrow> bool" where
  "timestamp_expired now ts =
     js_gt (js_sub (Num (of_int now)) (to_number ts)) (Num (of_int HEADERS_MAX_TIMESTAMP_DIFF))"

definition reject :: "string \<Rightarrow> bool \<times> callback_call list" where
  "reject msg = (False, [(Some (JWS msg), JNull)])"

text \<open>
  \<open>isJWSHeaderValid header publicKey url now\<close>: the value returned and the callback
  invocations made, in order; \<open>now\<close> is the clock reading \<^verbatim>\<open>new Date().getTime()\<close>.
\<close>

definition isJWSHeaderValid ::
  "jsobj \<Rightarrow> string \<Rightarrow> string \<Rightarrow> int \<Rightarrow> bool \<times> callback_call list" where
  "isJWSHeaderValid header publicKey url now =
     (if own_prop header ''alg'' \<noteq> JStr HEADERS_ALGORITHM then
        reject ''Incorrect JWS algorithm found. HS256 is required''
      else if length (object_keys header) \<noteq> 7 then
        reject ''Incorrect number of header parameters found''
      else if own_prop header ''typ'' \<noteq> JStr HEADERS_TYPE then
        reject ''Incorrect JWS type found''
      else if isUndefined (own_prop header ''kid'') then
        reject ''Missing Key ID''
      else if own_prop header ''kid'' \<noteq> JStr publicKey \<and> \<not> isLiveKey publicKey then
        reject ''Incorrect Key ID''
      else if isUndefined (JStr HEADERS_URI) then
        reject ''Missing URI''
      else if own_prop header HEADERS_URI \<noteq> JStr url then
        reject ''Invalid URI found''
      else if isUndefined (own_prop header ''uname'') then
        reject ''Missing usename''
      else if isUndefined (JStr HEADERS_NONCE) then
        reject ''Missing nonce''
      else if isUndefined (JStr HEADERS_TIMESTAMP) then
        reject ''Missing timestamp''
      else if timestamp_expired now (own_prop header HEADERS_TIMESTAMP) then
        reject ''Timestamp expired''
      else (True, []))"

text \<open>
  The tests of the validation in the order of the source, each with the message it
  reports, and the message of the first test that fires.
\<close>

definition header_checks :: "jsobj \<Rightarrow> string \<Rightarrow> string \<Rightarrow> int \<Rightarrow> (bool \<times> string) list" where
  "header_checks header publicKey url now =
     [(own_prop header ''alg'' \<noteq> JStr HEADERS_ALGORITHM,
         ''Incorrect JWS algorithm found. HS256 is required''),
      (length (object_keys header) \<noteq> 7, ''Incorrect number of header parameters found''),
      (own_prop header ''typ'' \<noteq> JStr HEADERS_TYPE, ''Incorrect JWS type found''),
      (isUndefined (own_prop header ''kid''), ''Missing Key ID''),
      (own_prop header ''kid'' \<noteq> JStr publicKey \<and> \<not> isLiveKey publicKey, ''Incorrect Key ID''),
      (isUndefined (JStr HEADERS_URI), ''Missing URI''),
      (own_prop header HEADERS_URI \<noteq> JStr url, ''Invalid URI found''),
      (isUndefined (own_prop header ''uname''), ''Missing usename''),
      (isUndefined (JStr HEADERS_NONCE), ''Missing nonce''),
      (isUndefined (JStr HEADERS_TIMESTAMP), ''Missing timestamp''),
      (timestamp_expired now (own_prop header HEADERS_TIMESTAMP), ''Timestamp expired'')]"

fun first_failure :: "(bool \<times> string) list \<Rightarrow> string option" where
  "first_failure [] = None"
| "first_failure ((fails, msg) # cs) = (if fails then Some msg else first_failure cs)"

section \<open>The platform\<close>

text \<open>
  The object that \<^verbatim>\<open>url.parse\<close> of the platform returns, with the properties the SDK
  reads; \<open>None\<close> is \<^verbatim>\<open>null\<close>.
\<close>

record url_object =
  href :: string
  protocol :: "string option"
  hostname :: "string option"
  port :: "string option"
  path :: "string option"

text \<open>
  What the SDK takes from its platform: the clock at the timestamp claim, the clock
  inside \<^verbatim>\<open>generateRandomNumber\<close>, the hexadecimal SHA-256 digest of the crypto module,
  and \<^verbatim>\<open>url.parse\<close>. The clocks are time values, integers of magnitude at most
  \<open>8.64 \<times> 10\<^sup>1\<^sup>5\<close>, which are safe integers.
\<close>

record runtime =
  stamp_clock :: safe_int
  nonce_clock :: safe_int
  sha256_hex :: "string \<Rightarrow> string"
  url_parse :: "string \<Rightarrow> url_object"

section \<open>simplifyJws: signing and decoding\<close>

text \<open>
  The credentials of a client. A key that was not supplied is \<^verbatim>\<open>undefined\<close> (\<open>None\<close>).
\<close>

record credentials =
  publicKey :: "string option"
  privateKey :: "string option"

definition key_value :: "string option \<Rightarrow> jsval" where
  "key_value k = (case k of None \<Rightarrow> JUndefined | Some s \<Rightarrow> JStr s)"

definition generateRandomNumber :: "runtime \<Rightarrow> string" where
  "generateRandomNumber rt = sha256_hex rt (number_to_string (Rep_safe_int (nonce_clock rt)))"

text \<open>
  Modelled from the spec: the signed envelope of the package \<^verbatim>\<open>jws\<close>, which the
  sources import and do not contain. The Signer's output is ``a compact three-part
  signed string (header, payload, signature, each independently recoverable by
  decoding)'', the signature covering header and payload under the base64-decoded
  private key. The compact string is represented by its three parts and the signature
  by the data it covers; the JSON and base64url texts are not represented. \<open>Malformed\<close>
  stands for every string that \<^verbatim>\<open>jws.decode\<close> answers with \<^verbatim>\<open>null\<close>.
\<close>

datatype secret = Base64_decoded string

datatype signature = HS256 secret jsobj jsval

record envelope =
  env_header :: jsobj
  env_payload :: jsval
  env_signature :: signature

datatype compact = Compact envelope | Malformed

text \<open>
  Modelled from the spec: \<^verbatim>\<open>jws.sign\<close> of the package \<^verbatim>\<open>jws\<close>, missing from the
  sources: it ``produces a signed, compact representation of {header, payload}''.
\<close>

definition jws_sign :: "jsobj \<Rightarrow> jsval \<Rightarrow> secret \<Rightarrow> compact" where
  "jws_sign hdr pl sec =
     Compact \<lparr>env_header = hdr, env_payload = pl, env_signature = HS256 sec hdr pl\<rparr>"

text \<open>
  Modelled from the spec: \<^verbatim>\<open>jws.decode\<close> of the package \<^verbatim>\<open>jws\<close>, missing from the
  sources: a ``pure structural decode, no cryptographic check performed''.
\<close>

definition jws_decode :: "compact \<Rightarrow> envelope option" where
  "jws_decode c = (case c of Compact e \<Rightarrow> Some e | Malformed \<Rightarrow> None)"

text \<open>
  The header the Signer builds, claim by claim; reading \<^verbatim>\<open>params.accessToken\<close> throws
  when \<open>params\<close> is \<^verbatim>\<open>undefined\<close> or \<^verbatim>\<open>null\<close>.
\<close>

definition jwsHeader :: "runtime \<Rightarrow> credentials \<Rightarrow> jsval \<Rightarrow> string \<Rightarrow> jsobj" where
  "jwsHeader rt auth params uri =
     (let h0 = [(''typ'', JStr HEADERS_TYPE),
                (''alg'', JStr HEADERS_ALGORITHM),
                (''kid'', key_value (publicKey auth))];
          h1 = (if \<not> isUndefined (get params ''accessToken'')
                then obj_set h0 HEADERS_TOKEN (get params ''accessToken'') else h0);
          h2 = obj_set h1 HEADERS_URI (JStr uri);
          h3 = obj_set h2 HEADERS_TIMESTAMP
                 (JStr (number_to_string (Rep_safe_int (stamp_clock rt))));
          h4 = obj_set h3 HEADERS_NONCE (JStr (generateRandomNumber rt))
      in h4)"

definition getJWSSignature ::
  "runtime \<Rightarrow> credentials \<Rightarrow> jsval \<Rightarrow> string \<Rightarrow> js_error + compact" where
  "getJWSSignature rt auth params uri =
     (if nullish params then Inl TypeError
      else case privateKey auth of
        None \<Rightarrow> Inl TypeError
      | Some k \<Rightarrow> Inr (jws_sign (jwsHeader rt auth params uri) params (Base64_decoded k)))"

definition decodeSignature :: "compact \<Rightarrow> envelope option" where
  "decodeSignature signature = jws_decode signature"

section \<open>payments\<close>

definition API_BASE_LIVE_URL :: string where
  "API_BASE_LIVE_URL = ''https://api.simplify.com/v1/api''"

definition API_BASE_SANDBOX_URL :: string where
  "API_BASE_SANDBOX_URL = ''https://sandbox.simplify.com/v1/api''"

definition OAUTH_BASE_URL :: string where
  "OAUTH_BASE_URL = ''https://www.simplify.com/commerce/oauth''"

record request_descriptor =
  auth :: credentials
  domainType :: string
  action :: string
  params :: jsval

definition areAPIKeysSet :: "credentials \<Rightarrow> bool \<times> callback_call list" where
  "areAPIKeysSet a =
     (if isUndefined (key_value (publicKey a)) then
        (False, [(Some (API ''Missing API Key - Simplify.PUBLIC_KEY'' JUndefined), JNull)])
      else if isUndefined (key_value (privateKey a)) then
        (False, [(Some (API ''Missing API Key - Simplify.PRIVATE_KEY'' JUndefined), JNull)])
      else (True, []))"

text \<open>The switch has no default: \<open>tokenParams\<close> stays \<^verbatim>\<open>undefined\<close> for any other action.\<close>

definition getAccessTokenParams :: "string \<Rightarrow> jsval \<Rightarrow> js_error + jsval" where
  "getAccessTokenParams act ps =
     (if act = ''create'' then
        (if nullish ps then Inl TypeError
         else Inr (JStr (''grant_type=authorization_code&code='' @ to_string (get ps ''authCode'')
                         @ ''&redirect_uri='' @ to_string (get ps ''redirectUri''))))
      else if act = ''refresh'' then
        Inr (JStr (''grant_type=refresh_token&refresh_token='' @ to_string ps))
      else if act = ''revoke'' then
        Inr (JStr (''token='' @ to_string ps))
      else Inr JUndefined)"

definition getAccessTokenURI :: "runtime \<Rightarrow> string \<Rightarrow> url_object" where
  "getAccessTokenURI rt act =
     (let uri = (if act = ''create'' \<or> act = ''refresh'' then OAUTH_BASE_URL @ ''/token''
                 else if act = ''revoke'' then OAUTH_BASE_URL @ ''/revoke''
                 else OAUTH_BASE_URL)
      in url_parse rt uri)"

text \<open>The query terms that the \<open>list\<close> case pushes, in the order it pushes them.\<close>

definition list_query :: "jsval \<Rightarrow> string list" where
  "list_query ps =
     (if \<not> isUndefined (get ps ''max'') then [''max='' @ to_string (get ps ''max'')] else [])
     @ (if \<not> isUndefined (get ps ''offset'')
        then [''offset='' @ to_string (get ps ''offset'')] else [])
     @ (if \<not> isUndefined (get ps ''filter'')
        then map (\<lambda>filterProp. ''filter['' @ filterProp @ '']=''
                      @ to_string (get (get ps ''filter'') filterProp))
                 (for_in_keys (get ps ''filter''))
        else [])
     @ (if \<not> isUndefined (get ps ''sorting'')
        then map (\<lambda>sortableProp. ''sorting['' @ sortableProp @ '']=''
                      @ to_string (get (get ps ''sorting'') sortableProp))
                 (for_in_keys (get ps ''sorting''))
        else [])"

text \<open>
  \<open>getURI\<close> assembles the text of the URI and returns \<^verbatim>\<open>url.parse\<close> of it. Reading
  a property of \<open>params\<close> throws when \<open>params\<close> is \<^verbatim>\<open>undefined\<close> or \<^verbatim>\<open>null\<close>.
\<close>

definition getURI ::
  "runtime \<Rightarrow> string \<Rightarrow> string \<Rightarrow> string \<Rightarrow> jsval \<Rightarrow> js_error + url_object" where
  "getURI rt pubKey dt act ps =
     (let base = (if isLiveKey pubKey then API_BASE_LIVE_URL else API_BASE_SANDBOX_URL);
          uri = base @ ''/'' @ dt
      in if act = ''create'' then Inr (url_parse rt uri)
         else if act = ''show'' \<or> act = ''delete'' then
           Inr (url_parse rt (uri @ ''/'' @ to_string ps))
         else if act = ''update'' then
           (if nullish ps then Inl TypeError
            else Inr (url_parse rt (uri @ ''/'' @ to_string (get ps ''id''))))
         else if act = ''list'' then
           (if nullish ps then Inl TypeError
            else let query = list_query ps
                 in Inr (url_parse rt (if length query > 0 then uri @ ''?'' @ join ''&'' query
                                       else uri)))
         else Inr (url_parse rt uri))"

text \<open>\<open>None\<close> is the \<^verbatim>\<open>undefined\<close> that is returned for an action outside the five.\<close>

definition getHttpMethod :: "string \<Rightarrow> string option" where
  "getHttpMethod act =
     (if act = ''create'' then Some ''POST''
      else if act = ''delete'' then Some ''DELETE''
      else if act = ''update'' then Some ''PUT''
      else if act = ''show'' \<or> act = ''list'' then Some ''GET''
      else None)"

text \<open>
  The options of the HTTP request: host, port and path are read from the parsed URI. A
  header value is a literal, the length of the signature string, or
  \<^verbatim>\<open>"JWS " + signature\<close>.
\<close>

datatype header_value = Literal string | Length_of compact | JWS_prefixed compact

record request_options =
  opt_host :: "string option"
  opt_port :: "string option"
  opt_path :: "string option"
  opt_method :: "string option"
  opt_headers :: "(string \<times> header_value) list"

definition getRequestOptions ::
  "string option \<Rightarrow> compact \<Rightarrow> url_object \<Rightarrow> request_options" where
  "getRequestOptions httpMethod sig uri =
     \<lparr>opt_host = hostname uri,
      opt_port = port uri,
      opt_path = path uri,
      opt_method = httpMethod,
      opt_headers =
        [(''Accept'', Literal ''application/json''), (''User-Agent'', Literal ''NodeJS-SDK'')]
        @ (if httpMethod = Some ''POST'' \<or> httpMethod = Some ''PUT''
           then [(''Content-Type'', Literal ''application/json''),
                 (''Content-length'', Length_of sig)]
           else [(''authorization'', JWS_prefixed sig)])\<rparr>"

text \<open>
  The branch of \<open>execute\<close> on the domain type: the URI, the HTTP method and the
  parameters that go on to the Signer.
\<close>

definition execute_route ::
  "runtime \<Rightarrow> string \<Rightarrow> request_descriptor \<Rightarrow>
     js_error + (url_object \<times> string option \<times> jsval)" where
  "execute_route rt pubKey opts =
     (if domainType opts = ''accessToken'' then
        (case getAccessTokenParams (action opts) (params opts) of
           Inl e \<Rightarrow> Inl e
         | Inr ps \<Rightarrow> Inr (getAccessTokenURI rt (action opts), Some ''POST'', ps))
      else
        (case getURI rt pubKey (domainType opts) (action opts) (params opts) of
           Inl e \<Rightarrow> Inl e
         | Inr uri \<Rightarrow> Inr (uri, getHttpMethod (action opts), params opts)))"

text \<open>
  What the transport reports for a request: the end of the response, with the outcome of
  \<^verbatim>\<open>JSON.parse\<close> on the buffered body (\<open>None\<close> when it throws a SyntaxError), or an
  error event with its error object.
\<close>

datatype net_event = Response_end "jsval option" | Request_error jsobj

definition on_end :: "jsval option \<Rightarrow> callback_call list \<times> js_error option" where
  "on_end parsed =
     (case parsed of
        None \<Rightarrow> ([], Some SyntaxError)
      | Some jsonResponse \<Rightarrow>
          if nullish jsonResponse then ([], Some TypeError)
          else if isUndefined (get jsonResponse ''error'') then ([(None, jsonResponse)], None)
          else ([(Some (API ''Error executing API call'' jsonResponse), JNull)], None))"

definition on_error :: "jsobj \<Rightarrow> callback_call list \<times> js_error option" where
  "on_error errorResponse =
     (if own_prop errorResponse ''code'' = JStr ''ECONNRESET'' then
        ([(Some (API ''The API request has timed out'' (JObj errorResponse)), JNull)], None)
      else ([(Some (API ''Error executing API call'' (JObj errorResponse)), JNull)], None))"

text \<open>The handlers run event by event; an exception thrown inside a handler ends the run.\<close>

fun run_events :: "net_event list \<Rightarrow> callback_call list \<times> js_error option" where
  "run_events [] = ([], None)"
| "run_events (ev # evs) =
     (case (case ev of Response_end parsed \<Rightarrow> on_end parsed
                     | Request_error errorResponse \<Rightarrow> on_error errorResponse) of
        (cs, Some e) \<Rightarrow> (cs, Some e)
      | (cs, None) \<Rightarrow> (case run_events evs of (cs', r) \<Rightarrow> (cs @ cs', r)))"

text \<open>
  An execution of \<open>execute\<close>: the request handed to the transport (its options and the
  body written for POST and PUT), the module that carries it (\<^verbatim>\<open>https\<close> when the
  protocol of the parsed URI is \<^verbatim>\<open>https:\<close>, \<^verbatim>\<open>http\<close> otherwise), the callback
  invocations in order, and the exception that ended it, if any. The Signer is given the
  \<^verbatim>\<open>href\<close> of the parsed URI.
\<close>

datatype net_module = Http_module | Https_module

record execution =
  sent :: "(request_options \<times> compact option) option"
  carrier :: "net_module option"
  calls :: "callback_call list"
  thrown :: "js_error option"

definition execute :: "runtime \<Rightarrow> request_descriptor \<Rightarrow> net_event list \<Rightarrow> execution" where
  "execute rt opts events =
     (case areAPIKeysSet (auth opts) of
        (False, cs) \<Rightarrow> \<lparr>sent = None, carrier = None, calls = cs, thrown = None\<rparr>
      | (True, cs) \<Rightarrow>
          (case publicKey (auth opts) of
             None \<Rightarrow> \<lparr>sent = None, carrier = None, calls = cs, thrown = Some TypeError\<rparr>
           | Some pubKey \<Rightarrow>
               (case execute_route rt pubKey opts of
                  Inl e \<Rightarrow> \<lparr>sent = None, carrier = None, calls = cs, thrown = Some e\<rparr>
                | Inr (uri, httpMethod, ps) \<Rightarrow>
                    (case getJWSSignature rt (auth opts) ps (href uri) of
                       Inl e \<Rightarrow> \<lparr>sent = None, carrier = None, calls = cs, thrown = Some e\<rparr>
                     | Inr jwsSignature \<Rightarrow>
                         (let requestOptions = getRequestOptions httpMethod jwsSignature uri;
                              via = (if protocol uri = Some ''https:'' then Https_module
                                     else Http_module);
                              body = (if opt_method requestOptions = Some ''POST''
                                         \<or> opt_method requestOptions = Some ''PUT''
                                      then Some jwsSignature else None);
                              (cs', r) = run_events events
                          in \<lparr>sent = Some (requestOptions, body), carrier = Some via,
                              calls = cs @ cs', thrown = r\<rparr>)))))"

text \<open>
  The parameters of a webhook event: its signed payload and the delivery URL, either of
  which may be missing.
\<close>

record event_params =
  ev_payload :: "compact option"
  ev_url :: "string option"

text \<open>
  \<open>jwsDecode a ps now parsed\<close>: \<open>now\<close> is the clock read by the header validation and
  \<open>parsed\<close> the outcome of \<^verbatim>\<open>JSON.parse\<close> on the trimmed payload text (\<open>None\<close> when
  it throws a SyntaxError).
\<close>

definition jwsDecode ::
  "credentials \<Rightarrow> event_params \<Rightarrow> int \<Rightarrow> jsval option \<Rightarrow> callback_call list \<times> js_error option" where
  "jwsDecode a ps now parsed =
     (case areAPIKeysSet a of
        (False, cs) \<Rightarrow> (cs, None)
      | (True, cs) \<Rightarrow>
          (case ev_payload ps of
             None \<Rightarrow> ([(Some (JWS ''Missing payload paramater''), JNull)], None)
           | Some signed \<Rightarrow>
               (case ev_url ps of
                  None \<Rightarrow> ([(Some (JWS ''Missing url paramater''), JNull)], None)
                | Some u \<Rightarrow>
                    (case decodeSignature signed of
                       None \<Rightarrow> ([], Some TypeError)
                     | Some decodedPayload \<Rightarrow>
                         if isUndefined (env_payload decodedPayload) then
                           ([(Some (JWS ''Event data is missing its payload''), JNull)], None)
                         else
                           (case publicKey a of
                              None \<Rightarrow> ([], Some TypeError)
                            | Some pubKey \<Rightarrow>
                                (case isJWSHeaderValid (env_header decodedPayload) pubKey u now of
                                   (False, cs') \<Rightarrow> (cs', None)
                                 | (True, cs') \<Rightarrow>
                                     if env_payload decodedPayload = JNull then
                                       (cs', Some TypeError)
                                     else
                                       (case parsed of
                                          None \<Rightarrow> (cs', Some SyntaxError)
                                        | Some v \<Rightarrow> (cs' @ [(None, v)], None))))))))"

section \<open>Auxiliary notions and sample data\<close>

text \<open>
  Notions for reasoning about the rounding: the exponent of the grid on which the
  doubles near a positive \<open>a\<close> lie, the grid point that rounding picks, and a property
  that all finite doubles have.
\<close>

definition quantum :: "rat \<Rightarrow> int" where
  "quantum a = max (binade a - 52) (- 1074)"

definition nearest :: "rat \<Rightarrow> rat" where
  "nearest a = of_int (round_half_even (a / 2 powi quantum a)) * 2 powi quantum a"

definition coarse :: "rat \<Rightarrow> bool" where
  "coarse t = ((\<exists>k::int. t = of_int k / 2 ^ 34) \<or> \<bar>t\<bar> < 262144)"

text \<open>
  ``All else being valid'': every check of the header validation other than the
  freshness of the timestamp passes.
\<close>

definition other_checks_pass :: "jsobj \<Rightarrow> string \<Rightarrow> string \<Rightarrow> bool" where
  "other_checks_pass header pk url =
     (own_prop header ''alg'' = JStr HEADERS_ALGORITHM
      \<and> length (object_keys header) = 7
      \<and> own_prop header ''typ'' = JStr HEADERS_TYPE
      \<and> own_prop header ''kid'' \<noteq> JUndefined
      \<and> (own_prop header ''kid'' = JStr pk \<or> isLiveKey pk)
      \<and> own_prop header HEADERS_URI = JStr url
      \<and> own_prop header ''uname'' \<noteq> JUndefined)"

text \<open>The header of a webhook event as the server issues it, with a user-name claim.\<close>

definition webhook_header :: jsobj where
  "webhook_header =
     [(''typ'', JStr ''JWS''), (''alg'', JStr ''HS256''), (''kid'', JStr ''sbpb_abc''),
      (''api.simplifycommerce.com/uri'', JStr ''https://example.com/hook''),
      (''api.simplifycommerce.com/timestamp'', JStr ''1700000000000''),
      (''api.simplifycommerce.com/nonce'', JStr ''n1''),
      (''uname'', JStr ''merchant'')]"

text \<open>The same header with its timestamp written with a fraction and an exponent.\<close>

definition webhook_header_exponent :: jsobj where
  "webhook_header_exponent =
     [(''typ'', JStr ''JWS''), (''alg'', JStr ''HS256''), (''kid'', JStr ''sbpb_abc''),
      (''api.simplifycommerce.com/uri'', JStr ''https://example.com/hook''),
      (''api.simplifycommerce.com/timestamp'', JStr ''1.7e12''),
      (''api.simplifycommerce.com/nonce'', JStr ''n1''),
      (''uname'', JStr ''merchant'')]"

text \<open>A header of seven claims that has no URI claim.\<close>

definition header_without_uri :: jsobj where
  "header_without_uri =
     [(''typ'', JStr ''JWS''), (''alg'', JStr ''HS256''), (''kid'', JStr ''sbpb_abc''),
      (''api.simplifycommerce.com/token'', JStr ''tok''),
      (''api.simplifycommerce.com/timestamp'', JStr ''1700000000000''),
      (''api.simplifycommerce.com/nonce'', JStr ''n1''),
      (''uname'', JStr ''merchant'')]"

text \<open>A header of seven claims that has no timestamp claim.\<close>

definition header_without_timestamp :: jsobj where
  "header_without_timestamp =
     [(''typ'', JStr ''JWS''), (''alg'', JStr ''HS256''), (''kid'', JStr ''sbpb_abc''),
      (''api.simplifycommerce.com/token'', JStr ''tok''),
      (''api.simplifycommerce.com/uri'', JStr ''https://example.com/hook''),
      (''api.simplifycommerce.com/nonce'', JStr ''n1''),
      (''uname'', JStr ''merchant'')]"

text \<open>
  A header whose timestamp claim lies \<open>10\<^sup>-\<^sup>2\<^sup>0\<close> ms before the epoch.
\<close>

definition header_before_epoch :: jsobj where
  "header_before_epoch =
     [(''typ'', JStr ''JWS''), (''alg'', JStr ''HS256''), (''kid'', JStr ''sbpb_abc''),
      (''api.simplifycommerce.com/uri'', JStr ''https://example.com/hook''),
      (''api.simplifycommerce.com/timestamp'', JStr ''-1e-20''),
      (''api.simplifycommerce.com/nonce'', JStr ''n1''),
      (''uname'', JStr ''merchant'')]"

text \<open>
  A header whose timestamp claim reads as the double \<open>2\<^sup>1\<^sup>8 - 2\<^sup>-\<^sup>3\<^sup>5\<close>.
\<close>

definition header_at_edge :: jsobj where
  "header_at_edge =
     [(''typ'', JStr ''JWS''), (''alg'', JStr ''HS256''), (''kid'', JStr ''sbpb_abc''),
      (''api.simplifycommerce.com/uri'', JStr ''https://example.com/hook''),
      (''api.simplifycommerce.com/timestamp'', JStr ''262143.99999999997''),
      (''api.simplifycommerce.com/nonce'', JStr ''n1''),
      (''uname'', JStr ''merchant'')]"

text \<open>
  A platform, credentials and requests used to exercise the theorems. The digest is the
  SHA-256 of the text \<^verbatim>\<open>1700000000000\<close>. \<open>sample_url_parse\<close> gives what
  \<^verbatim>\<open>url.parse\<close> returns for the URLs of the sample data: absolute URLs of the form
  \<^verbatim>\<open>scheme://host/path?query\<close> in lower case, without a port or a fragment and
  without a character that \<^verbatim>\<open>url.parse\<close> escapes.
\<close>

definition sample_url_parse :: "string \<Rightarrow> url_object" where
  "sample_url_parse s =
     (let scheme = takeWhile (\<lambda>c. c \<noteq> CHR '':'') s;
          rest = drop (length scheme + 3) s
      in \<lparr>href = s,
          protocol = Some (scheme @ '':''),
          hostname = Some (takeWhile (\<lambda>c. c \<noteq> CHR ''/'') rest),
          port = None,
          path = Some (dropWhile (\<lambda>c. c \<noteq> CHR ''/'') rest)\<rparr>)"

definition sample_runtime :: runtime where
  "sample_runtime =
     \<lparr>stamp_clock = Abs_safe_int 1700000000000, nonce_clock = Abs_safe_int 1700000000000,
      sha256_hex = (\<lambda>s. ''bc99b4bf100ad96cc4db80d1f6b724f9d17d0a1c19f011d908ee810fffda7484''),
      url_parse = sample_url_parse\<rparr>"

definition sample_auth :: credentials where
  "sample_auth = \<lparr>publicKey = Some ''sbpb_abc'', privateKey = Some ''c2VjcmV0''\<rparr>"

definition payment_params :: jsval where
  "payment_params = JObj [(''amount'', JNum (Abs_safe_int 100)), (''currency'', JStr ''USD'')]"

definition payment_request :: request_descriptor where
  "payment_request =
     \<lparr>auth = sample_auth, domainType = ''payment'', action = ''create'',
      params = payment_params\<rparr>"

definition refresh_request :: request_descriptor where
  "refresh_request =
     \<lparr>auth = sample_auth, domainType = ''accessToken'', action = ''refresh'',
      params = JStr ''rt_123''\<rparr>"

text \<open>
  A request for an access token whose authorisation code has a space and whose redirect
  URI has a query of its own, and a request on the access-token resource with an action
  outside \<open>create\<close>, \<open>refresh\<close> and \<open>revoke\<close>.
\<close>

definition code_request :: request_descriptor where
  "code_request =
     \<lparr>auth = sample_auth, domainType = ''accessToken'', action = ''create'',
      params = JObj [(''authCode'', JStr ''a b''),
                     (''redirectUri'', JStr ''https://x.y/cb?a=1&grant_type=x'')]\<rparr>"

definition show_token_request :: request_descriptor where
  "show_token_request =
     \<lparr>auth = sample_auth, domainType = ''accessToken'', action = ''show'',
      params = JStr ''tok_1''\<rparr>"

definition list_params :: jsval where
  "list_params =
     JObj [(''max'', JNum (Abs_safe_int 10)), (''offset'', JNum (Abs_safe_int 0)),
           (''filter'', JObj [(''text'', JStr ''John'')])]"

text \<open>
  Parameters of a \<open>list\<close> request whose filter was built as
  \<^verbatim>\<open>{name: 'x', '1': 'y'}\<close>: the key \<^verbatim>\<open>name\<close> was inserted first.
\<close>

definition index_key_params :: jsval where
  "index_key_params = JObj [(''filter'', JObj [(''name'', JStr ''x''), (''1'', JStr ''y'')])]"

text \<open>
  Two webhook events with a valid header: one whose payload is the JSON text
  \<^verbatim>\<open>null\<close>, one whose payload is the JSON text \<^verbatim>\<open>42\<close>.
\<close>

definition null_event :: event_params where
  "null_event =
     \<lparr>ev_payload = Some (Compact \<lparr>env_header = webhook_header, env_payload = JStr ''null'',
              env_signature = HS256 (Base64_decoded ''c2VjcmV0'') webhook_header (JStr ''null'')\<rparr>),
      ev_url = Some ''https://example.com/hook''\<rparr>"

definition number_event :: event_params where
  "number_event =
     \<lparr>ev_payload = Some (Compact \<lparr>env_header = webhook_header, env_payload = JStr ''42'',
              env_signature = HS256 (Base64_decoded ''c2VjcmV0'') webhook_header (JStr ''42'')\<rparr>),
      ev_url = Some ''https://example.com/hook''\<rparr>"

text \<open>
  The query of a \<open>list\<close> request as the specification words it: a term for \<open>max\<close> and
  one for \<open>offset\<close> when present, then one bracketed term per entry of the \<open>filter\<close>
  mapping and one per entry of the \<open>sorting\<close> mapping; the separator \<^verbatim>\<open>?\<close> only
  when there is a term. \<open>mapping_entries\<close> reads an optional mapping: no entries when it
  is absent, the entries of an object, in the order of their insertion, otherwise.
\<close>

definition optional_term :: "string \<Rightarrow> jsval \<Rightarrow> string list" where
  "optional_term name ps =
     (case get ps name of JUndefined \<Rightarrow> [] | v \<Rightarrow> [name @ ''='' @ to_string v])"

definition entry_terms :: "string \<Rightarrow> (string \<times> jsval) list \<Rightarrow> string list" where
  "entry_terms name es = map (\<lambda>(k, v). name @ ''['' @ k @ '']='' @ to_string v) es"

definition mapping_entries :: "jsval \<Rightarrow> (string \<times> jsval) list option" where
  "mapping_entries m =
     (case m of
        JUndefined \<Rightarrow> Some []
      | JObj kvs \<Rightarrow> if distinct (map fst kvs) then Some kvs else None
      | _ \<Rightarrow> None)"

definition query_suffix :: "string list \<Rightarrow> string" where
  "query_suffix terms = (if terms = [] then [] else ''?'' @ join ''&'' terms)"

text \<open>
  The entries of a mapping in the order a \<^verbatim>\<open>for ... in\<close> loop visits them, given in
  the order of their insertion: the entries whose key is an array index come first, by
  ascending index, the others follow as inserted.
\<close>

definition for_in_entries :: "(string \<times> jsval) list \<Rightarrow> (string \<times> jsval) list" where
  "for_in_entries es =
     sort_key (\<lambda>e. index_rank (fst e)) (filter (\<lambda>e. is_index (fst e)) es)
     @ filter (\<lambda>e. \<not> is_index (fst e)) es"

text \<open>
  A text is URL-encoded, as a query string of fields \<^verbatim>\<open>name=value\<close> joined by
  \<^verbatim>\<open>&\<close>, when within each field every character is a letter, a digit, one of
  \<^verbatim>\<open>- _ . ! ~ * ' ( )\<close>, or part of an escape \<^verbatim>\<open>%XX\<close>; so a URL-encoded text has
  no other character than these, \<^verbatim>\<open>%\<close>, \<^verbatim>\<open>=\<close> and \<^verbatim>\<open>&\<close>.
\<close>

definition url_encoded_char :: "char \<Rightarrow> bool" where
  "url_encoded_char c =
     (c \<in> set ''abcdefghijklmnopqrstuvwxyzABCDEFGHIJKLMNOPQRSTUVWXYZ0123456789-_.!~*()%=&''
      \<or> c = CHR 0x27)"

definition url_encoded :: "string \<Rightarrow> bool" where
  "url_encoded s = list_all url_encoded_char s"

text \<open>
  The request goes to the parsed URI \<open>u\<close>; the payload of the envelope that was signed
  and written as the body of the request.
\<close>

definition addressed_to :: "request_options \<Rightarrow> url_object \<Rightarrow> bool" where
  "addressed_to ro u = (opt_host ro = hostname u \<and> opt_port ro = port u \<and> opt_path ro = path u)"

definition signed_payload :: "execution \<Rightarrow> jsval option" where
  "signed_payload e =
     (case sent e of
        Some (ro, Some (Compact env)) \<Rightarrow> Some (env_payload env)
      | _ \<Rightarrow> None)"


section \<open>Evaluation of the value layer\<close>

declare log2_up.simps [simp del] log2_down.simps [simp del]

lemmas header_eval = HEADERS_URI_def HEADERS_TIMESTAMP_def HEADERS_NONCE_def HEADERS_TOKEN_def
  HEADERS_ALGORITHM_def HEADERS_TYPE_def HEADERS_MAX_TIMESTAMP_DIFF_def

lemmas number_eval = string_to_number_def trim_def is_ws_def radix_prefix_def
  decimal_number_def unsigned_decimal_def exponent_part_def is_digit_def all_digits_def

lemma isUndefined_JStr [simp]: "\<not> isUndefined (JStr s)"
  by (simp add: isUndefined_def)

lemma length_object_keys: "length (object_keys obj) = length (own_keys obj)"
  by (simp add: object_keys_def sum_length_filter_compl)


lemma set_own_keys: "set (own_keys obj) = fst ` set obj"
  by (simp add: own_keys_def)

lemmas js_eval = own_prop_def length_object_keys own_keys_def isUndefined_def nullish_def
  isLiveKey_def

section \<open>Rounding to doubles\<close>

lemma two_powi_Suc: "(2::rat) powi (n + 1) = 2 powi n * 2"
  by (simp add: power_int_add)

lemma two_powi_mono: "m \<le> n \<Longrightarrow> (2::rat) powi m \<le> 2 powi n"
  by (rule power_int_increasing) simp_all

lemma two_powi_strict_mono: "m < n \<Longrightarrow> (2::rat) powi m < 2 powi n"
  by (rule power_int_strict_increasing) simp_all

lemma two_powi_le_iff: "((2::rat) powi m \<le> 2 powi n) = (m \<le> n)"
proof
  assume le: "(2::rat) powi m \<le> 2 powi n"
  show "m \<le> n"
  proof (rule ccontr)
    assume "\<not> m \<le> n"
    then have "(2::rat) powi n < 2 powi m"
      by (simp add: two_powi_strict_mono)
    with le show False by simp
  qed
qed (rule two_powi_mono)

lemma two_powi_less_iff: "((2::rat) powi m < 2 powi n) = (m < n)"
  using two_powi_le_iff [of n m] by (auto simp: not_le [symmetric])

lemma two_powi_nat: "0 \<le> n \<Longrightarrow> (2::rat) powi n = 2 ^ nat n"
  by (simp add: power_int_def)

text \<open>\<open>binade q\<close> is the binary exponent of a positive \<open>q\<close>.\<close>

lemma log2_up_bounds:
  "1 \<le> q \<Longrightarrow> 2 powi (log2_up q e - e) \<le> q \<and> q < 2 powi (log2_up q e - e + 1)"
proof (induction q e rule: log2_up.induct)
  case (1 q e)
  show ?case
  proof (cases "q < 2")
    case True
    with "1.prems" show ?thesis
      by (simp add: log2_up.simps [of q e])
  next
    case False
    define k where "k = log2_up (q / 2) (e + 1) - (e + 1)"
    from False have "1 \<le> q / 2" by simp
    with "1.IH" False have ih: "2 powi k \<le> q / 2" "q / 2 < 2 powi (k + 1)"
      by (simp_all add: k_def)
    have r: "log2_up q e = log2_up (q / 2) (e + 1)"
      using False by (simp add: log2_up.simps [of q e])
    have e1: "log2_up q e - e = k + 1" and e2: "log2_up q e - e + 1 = k + 1 + 1"
      by (simp_all add: r k_def)
    have "2 powi (k + 1) \<le> q" "q < 2 powi (k + 1 + 1)"
      using ih two_powi_Suc [of k] two_powi_Suc [of "k + 1"] by linarith+
    then show ?thesis
      by (simp only: e1 e2)
  qed
qed

lemma log2_down_bounds:
  "0 < q \<Longrightarrow> q < 1 \<Longrightarrow>
     2 powi (log2_down q e - e) \<le> q \<and> q < 2 powi (log2_down q e - e + 1)"
proof (induction q e rule: log2_down.induct)
  case (1 q e)
  have r: "log2_down q e = log2_down (2 * q) (e - 1)"
    using "1.prems" by (simp add: log2_down.simps [of q e])
  define k where "k = log2_down q e - e"
  show ?case
  proof (cases "2 * q < 1")
    case True
    have "log2_down (2 * q) (e - 1) - (e - 1) = k + 1"
      "log2_down (2 * q) (e - 1) - (e - 1) + 1 = k + 1 + 1"
      by (simp_all add: r k_def)
    with "1.IH" "1.prems" True have ih: "2 powi (k + 1) \<le> 2 * q" "2 * q < 2 powi (k + 1 + 1)"
      by simp_all
    have "2 powi k \<le> q" "q < 2 powi (k + 1)"
      using ih two_powi_Suc [of k] two_powi_Suc [of "k + 1"] by linarith+
    then show ?thesis
      by (simp only: k_def)
  next
    case False
    then have "log2_down (2 * q) (e - 1) = e - 1"
      by (simp add: log2_down.simps [of "2 * q" "e - 1"])
    with r have "log2_down q e - e = - 1" by simp
    with False "1.prems" show ?thesis by simp
  qed
qed

lemma binade_bounds:
  assumes "0 < q"
  shows "2 powi binade q \<le> q" and "q < 2 powi (binade q + 1)"
  using assms log2_up_bounds [of q 0] log2_down_bounds [of q 0]
  by (auto simp: binade_def not_le)

lemma binade_less: "0 < q \<Longrightarrow> q < 2 powi n \<Longrightarrow> binade q < n"
  using binade_bounds(1) [of q] two_powi_less_iff [of "binade q" n] by linarith

lemma binade_ge: "0 < q \<Longrightarrow> 2 powi n \<le> q \<Longrightarrow> n \<le> binade q"
proof -
  assume "0 < q" "2 powi n \<le> q"
  then have "2 powi n < (2::rat) powi (binade q + 1)"
    using binade_bounds(2) [of q] by linarith
  then show ?thesis by (simp add: two_powi_less_iff)
qed

text \<open>Rounding to the nearest integer, ties to even.\<close>

lemma round_half_even_of_int [simp]: "round_half_even (of_int k) = k"
  by (simp add: round_half_even_def)

lemma round_half_even_cases:
  "round_half_even y = \<lfloor>y\<rfloor> \<or> round_half_even y = \<lfloor>y\<rfloor> + 1"
  by (simp add: round_half_even_def Let_def)

lemma round_half_even_upper: "of_int (round_half_even y) \<le> y + 1 / 2"
proof -
  have "of_int \<lfloor>y\<rfloor> \<le> y" by simp
  then show ?thesis
    by (auto simp: round_half_even_def Let_def) (linarith+)?
qed

lemma round_half_even_le: "y \<le> of_int k \<Longrightarrow> round_half_even y \<le> k"
proof -
  assume le: "y \<le> of_int k"
  show ?thesis
  proof (cases "y = of_int k")
    case True
    then show ?thesis by simp
  next
    case False
    with le have "y < of_int k" by simp
    then have "\<lfloor>y\<rfloor> < k" by (simp add: floor_less_iff)
    then show ?thesis
      using round_half_even_cases [of y] by linarith
  qed
qed

lemma round_half_even_ge: "of_int k \<le> y \<Longrightarrow> k \<le> round_half_even y"
proof -
  assume "of_int k \<le> y"
  then have "k \<le> \<lfloor>y\<rfloor>" by (simp add: le_floor_iff)
  then show ?thesis
    using round_half_even_cases [of y] by linarith
qed

text \<open>
  \<open>nearest a\<close> is the finite candidate that \<open>round_double\<close> computes for a positive
  \<open>a\<close>, a multiple of \<open>2\<close> to the power \<open>quantum a\<close>.
\<close>

lemma round_double_pos:
  "0 < q \<Longrightarrow> round_double q = (if 2 powi 1024 \<le> nearest q then PosInf else Num (nearest q))"
  by (simp add: round_double_def Let_def nearest_def quantum_def)

lemma round_double_neg:
  "q < 0 \<Longrightarrow>
     round_double q = (if 2 powi 1024 \<le> nearest (- q) then NegInf else Num (- nearest (- q)))"
  by (simp add: round_double_def Let_def nearest_def quantum_def)

lemma nearest_upper: "nearest a \<le> a + 2 powi quantum a / 2"
proof -
  have "of_int (round_half_even (a / 2 powi quantum a)) * 2 powi quantum a
          \<le> (a / 2 powi quantum a + 1 / 2) * 2 powi quantum a"
    by (intro mult_right_mono round_half_even_upper) simp
  also have "\<dots> = a + 2 powi quantum a / 2"
    by (simp add: field_simps)
  finally show ?thesis by (simp add: nearest_def)
qed

lemma nearest_nonneg: "0 \<le> a \<Longrightarrow> 0 \<le> nearest a"
proof -
  assume "0 \<le> a"
  then have "of_int 0 \<le> a / 2 powi quantum a" by simp
  then have "0 \<le> round_half_even (a / 2 powi quantum a)"
    by (rule round_half_even_ge)
  then show ?thesis by (simp add: nearest_def)
qed

lemma nearest_at_18:
  assumes "0 < x" and "binade x = 18"
  shows "nearest x = of_int (round_half_even (x * 2 ^ 34)) / 2 ^ 34"
proof -
  have "quantum x = - 34"
    using assms by (simp add: quantum_def)
  then show ?thesis
    by (simp add: nearest_def power_int_minus field_simps)
qed

lemma nearest_le_300000:
  assumes "0 < x" and "x \<le> 300000"
  shows "nearest x \<le> 300000"
proof -
  have "x < 2 powi 19"
    using assms by simp
  then have e: "binade x < 19"
    using assms(1) by (rule binade_less [rotated])
  show ?thesis
  proof (cases "binade x = 18")
    case True
    have "x * 2 ^ 34 \<le> of_int (300000 * 2 ^ 34)"
      using assms(2) by simp
    then have "round_half_even (x * 2 ^ 34) \<le> 300000 * 2 ^ 34"
      by (rule round_half_even_le)
    then have "(of_int (round_half_even (x * 2 ^ 34)) :: rat) \<le> of_int (300000 * 2 ^ 34)"
      by (simp only: of_int_le_iff)
    then show ?thesis
      by (simp add: nearest_at_18 [OF assms(1) True] field_simps)
  next
    case False
    with e have e17: "binade x \<le> 17" by simp
    then have "quantum x \<le> - 35"
      by (simp add: quantum_def)
    then have "(2::rat) powi quantum x \<le> 2 powi (- 35)"
      by (rule two_powi_mono)
    then have q: "(2::rat) powi quantum x \<le> 1"
      by (simp add: power_int_minus field_simps)
    have "x < 2 powi (binade x + 1)"
      using assms(1) by (rule binade_bounds)
    also have "\<dots> \<le> 2 powi 18"
      using e17 by (intro two_powi_mono) simp
    finally have "x < 262144" by simp
    with nearest_upper [of x] q show ?thesis by linarith
  qed
qed

lemma nearest_gt_300000:
  assumes "300000 + 1 / 2 ^ 34 \<le> x"
  shows "300000 < nearest x"
proof -
  have pos: "0 < x"
  proof -
    have "(0::rat) < 1 / 2 ^ 34" by simp
    with assms show ?thesis by linarith
  qed
  have "2 powi 18 \<le> x"
    using assms by (simp add: field_simps)
  then have e: "18 \<le> binade x"
    using pos by (rule binade_ge [rotated])
  show ?thesis
  proof (cases "binade x = 18")
    case True
    have "of_int (300000 * 2 ^ 34 + 1) \<le> x * 2 ^ 34"
      using assms by (simp add: field_simps)
    then have "300000 * 2 ^ 34 + 1 \<le> round_half_even (x * 2 ^ 34)"
      by (rule round_half_even_ge)
    then have "(of_int (300000 * 2 ^ 34 + 1) :: rat) \<le> of_int (round_half_even (x * 2 ^ 34))"
      by (simp only: of_int_le_iff)
    then show ?thesis
      by (simp add: nearest_at_18 [OF pos True] field_simps)
  next
    case False
    with e have e19: "19 \<le> binade x" by simp
    then have qx: "quantum x = binade x - 52"
      by (simp add: quantum_def)
    have "(2::rat) powi (52 + (binade x - 52)) = 2 powi 52 * 2 powi (binade x - 52)"
      by (rule power_int_add) simp
    moreover have "52 + (binade x - 52) = binade x" by simp
    ultimately have split: "(2::rat) powi binade x = 2 powi 52 * 2 powi (binade x - 52)"
      by metis
    have "2 powi binade x \<le> x"
      using pos by (rule binade_bounds)
    then have "2 powi 52 \<le> x / 2 powi (binade x - 52)"
      by (simp add: split pos_le_divide_eq)
    then have "of_int (2 ^ 52) \<le> x / 2 powi quantum x"
      by (simp add: qx)
    then have "2 ^ 52 \<le> round_half_even (x / 2 powi quantum x)"
      by (rule round_half_even_ge)
    then have "(of_int (2 ^ 52) :: rat) \<le> of_int (round_half_even (x / 2 powi quantum x))"
      by (simp only: of_int_le_iff)
    then have "of_int (2 ^ 52) * 2 powi quantum x \<le> nearest x"
      unfolding nearest_def by (intro mult_right_mono) simp_all
    then have "2 powi binade x \<le> nearest x"
      by (simp add: split qx)
    moreover have "(2::rat) powi 19 \<le> 2 powi binade x"
      using e19 by (rule two_powi_mono)
    ultimately show ?thesis by simp
  qed
qed

text \<open>The rounded value of a number at or below the bound, and of one above it by a gap.\<close>

lemma round_double_le_300000:
  assumes "x \<le> 300000"
  shows "\<not> js_gt (round_double x) (Num 300000)"
proof -
  consider "x = 0" | "0 < x" | "x < 0" by linarith
  then show ?thesis
  proof cases
    case 1
    then show ?thesis by (simp add: round_double_def)
  next
    case 2
    from 2 assms have "nearest x \<le> 300000" by (rule nearest_le_300000)
    with 2 show ?thesis
      by (simp add: round_double_pos)
  next
    case 3
    then have "0 \<le> nearest (- x)" by (intro nearest_nonneg) simp
    with 3 show ?thesis
      by (simp add: round_double_neg)
  qed
qed

lemma round_double_gt_300000:
  assumes "300000 + 1 / 2 ^ 34 \<le> x"
  shows "js_gt (round_double x) (Num 300000)"
proof -
  have "0 < x"
  proof -
    have "(0::rat) < 1 / 2 ^ 34" by simp
    with assms show ?thesis by linarith
  qed
  with nearest_gt_300000 [OF assms] show ?thesis
    by (simp add: round_double_pos)
qed

text \<open>
  Every finite double is a multiple of \<open>2\<close> to the power \<open>-34\<close> or is below
  \<open>262144\<close> in magnitude.
\<close>

lemma coarse_minus: "coarse t \<Longrightarrow> coarse (- t)"
proof -
  assume "coarse t"
  then consider k :: int where "t = of_int k / 2 ^ 34" | "\<bar>t\<bar> < 262144"
    by (auto simp: coarse_def)
  then show ?thesis
  proof cases
    case 1
    then have "- t = of_int (- k) / 2 ^ 34" by simp
    then show ?thesis unfolding coarse_def by blast
  next
    case 2
    then show ?thesis by (simp add: coarse_def)
  qed
qed

lemma coarse_of_int: "coarse (of_int i)"
proof -
  have "(of_int i :: rat) = of_int (i * 2 ^ 34) / 2 ^ 34" by simp
  then show ?thesis unfolding coarse_def by blast
qed

lemma coarse_nearest:
  assumes "0 < a"
  shows "coarse (nearest a)"
proof (cases "- 34 \<le> quantum a")
  case True
  define n where "n = nat (quantum a + 34)"
  have "(2::rat) powi (quantum a + 34 + (- 34)) = 2 powi (quantum a + 34) * 2 powi (- 34)"
    by (rule power_int_add) simp
  moreover have "quantum a + 34 + (- 34) = quantum a" by simp
  ultimately have "(2::rat) powi quantum a = 2 powi (quantum a + 34) * 2 powi (- 34)"
    by metis
  also have "(2::rat) powi (quantum a + 34) = 2 ^ n"
    using True by (simp add: two_powi_nat n_def)
  finally have "(2::rat) powi quantum a = 2 ^ n / 2 ^ 34"
    by (simp add: power_int_minus field_simps)
  then have "nearest a = of_int (round_half_even (a / 2 powi quantum a) * 2 ^ n) / 2 ^ 34"
    by (simp add: nearest_def)
  then show ?thesis unfolding coarse_def by blast
next
  case False
  then have q: "quantum a \<le> - 35" by simp
  then have "binade a \<le> 17"
    by (simp add: quantum_def)
  have "a < 2 powi (binade a + 1)"
    using assms by (rule binade_bounds)
  also have "\<dots> \<le> 2 powi 18"
    using \<open>binade a \<le> 17\<close> by (intro two_powi_mono) simp
  finally have a: "a < 2 powi 18" .
  define n where "n = nat (18 - quantum a)"
  have "(2::rat) powi (18 - quantum a + quantum a) = 2 powi (18 - quantum a) * 2 powi quantum a"
    by (rule power_int_add) simp
  moreover have "18 - quantum a + quantum a = 18" by simp
  ultimately have "(2::rat) powi 18 = 2 powi (18 - quantum a) * 2 powi quantum a"
    by metis
  moreover have "(2::rat) powi (18 - quantum a) = 2 ^ n"
    using q by (simp add: two_powi_nat n_def)
  ultimately have top: "(2::rat) powi 18 = of_int (2 ^ n) * 2 powi quantum a"
    by simp
  have "a \<le> of_int (2 ^ n) * 2 powi quantum a"
    using a by (simp only: top)
  then have "a / 2 powi quantum a \<le> of_int (2 ^ n)"
    by (simp add: pos_divide_le_eq)
  then have "round_half_even (a / 2 powi quantum a) \<le> 2 ^ n"
    by (rule round_half_even_le)
  then have "(of_int (round_half_even (a / 2 powi quantum a)) :: rat) \<le> of_int (2 ^ n)"
    by (simp only: of_int_le_iff)
  then have "nearest a \<le> of_int (2 ^ n) * 2 powi quantum a"
    unfolding nearest_def by (intro mult_right_mono) simp_all
  then have le: "nearest a \<le> 262144"
    using top by simp
  have nonneg: "0 \<le> nearest a"
    using assms by (intro nearest_nonneg) simp
  show ?thesis
  proof (cases "nearest a = 262144")
    case True
    then have "nearest a = of_int (262144 * 2 ^ 34) / 2 ^ 34" by simp
    then show ?thesis unfolding coarse_def by blast
  next
    case False
    with le nonneg show ?thesis by (simp add: coarse_def)
  qed
qed

lemma coarse_round_double: "round_double q = Num t \<Longrightarrow> coarse t"
proof -
  assume r: "round_double q = Num t"
  consider "q = 0" | "0 < q" | "q < 0" by linarith
  then show ?thesis
  proof cases
    case 1
    with r have "t = of_int 0" by (simp add: round_double_def)
    then show ?thesis by (simp only: coarse_of_int)
  next
    case 2
    with r have "t = nearest q"
      by (simp add: round_double_pos split: if_splits)
    with 2 show ?thesis by (simp add: coarse_nearest)
  next
    case 3
    with r have "t = - nearest (- q)"
      by (simp add: round_double_neg split: if_splits)
    with 3 show ?thesis by (simp add: coarse_nearest coarse_minus)
  qed
qed

text \<open>Integers below \<open>2\<close> to the power \<open>53\<close> in magnitude are doubles.\<close>

lemma nearest_of_int:
  assumes "0 < i" and "i < 2 ^ 53"
  shows "nearest (of_int i) = of_int i"
proof -
  let ?a = "of_int i :: rat"
  have pos: "0 < ?a" using assms by simp
  have "2 powi 0 \<le> ?a" using assms by simp
  then have e0: "0 \<le> binade ?a" using pos by (rule binade_ge [rotated])
  have "?a < of_int (2 ^ 53)" using assms(2) by (simp only: of_int_less_iff)
  then have "?a < 2 powi 53" by simp
  then have e53: "binade ?a < 53" using pos by (rule binade_less [rotated])
  define n where "n = nat (52 - binade ?a)"
  have q: "quantum ?a = binade ?a - 52"
    using e0 by (simp add: quantum_def)
  have "(2::rat) powi (quantum ?a + (52 - binade ?a))
          = 2 powi quantum ?a * 2 powi (52 - binade ?a)"
    by (rule power_int_add) simp
  moreover have "quantum ?a + (52 - binade ?a) = 0" by (simp add: q)
  ultimately have "(2::rat) powi quantum ?a * 2 powi (52 - binade ?a) = 1"
    by (metis power_int_0_right)
  moreover have "(2::rat) powi (52 - binade ?a) = 2 ^ n"
    using e53 by (simp add: two_powi_nat n_def)
  ultimately have one: "(2::rat) powi quantum ?a * 2 ^ n = 1" by simp
  then have "?a / 2 powi quantum ?a = ?a * 2 ^ n"
    by (simp add: field_simps)
  also have "\<dots> = of_int (i * 2 ^ n)" by simp
  finally have "round_half_even (?a / 2 powi quantum ?a) = i * 2 ^ n"
    by (simp only: round_half_even_of_int)
  then have "nearest ?a = ?a * (2 ^ n * 2 powi quantum ?a)"
    by (simp add: nearest_def)
  with one show ?thesis by (simp add: mult.commute)
qed

lemma round_double_of_int:
  assumes "\<bar>i\<bar> < 2 ^ 53"
  shows "round_double (of_int i) = Num (of_int i)"
proof -
  have big: "(of_int j :: rat) < 2 powi 1024" if "j < 2 ^ 53" for j :: int
  proof -
    have "(of_int j :: rat) < of_int (2 ^ 53)" using that by (simp only: of_int_less_iff)
    also have "\<dots> = 2 powi 53" by simp
    also have "\<dots> \<le> 2 powi 1024" by (rule two_powi_mono) simp
    finally show ?thesis .
  qed
  consider "i = 0" | "0 < i" | "i < 0" by linarith
  then show ?thesis
  proof cases
    case 1
    then show ?thesis by (simp add: round_double_def)
  next
    case 2
    with assms have "i < 2 ^ 53" by simp
    with 2 big [of i] show ?thesis
      by (simp add: round_double_pos nearest_of_int)
  next
    case 3
    with assms have "0 < - i" "- i < 2 ^ 53" by simp_all
    with 3 big [of "- i"] nearest_of_int [of "- i"] show ?thesis
      by (simp add: round_double_neg)
  qed
qed

lemma round_double_numeral:
  "(numeral n :: int) < 2 ^ 53 \<Longrightarrow> round_double (numeral n) = Num (numeral n)"
  using round_double_of_int [of "numeral n"] by simp

text \<open>
  From the clock reading 562145 on, an age above the bound exceeds it by at least \<open>2\<close>
  to the power \<open>-34\<close>.
\<close>

lemma age_gap:
  assumes "562145 \<le> now" and "coarse t" and "300000 < of_int now - t"
  shows "300000 + 1 / 2 ^ 34 \<le> of_int now - t"
proof -
  from assms(2) consider k :: int where "t = of_int k / 2 ^ 34" | "\<bar>t\<bar> < 262144"
    by (auto simp: coarse_def)
  then show ?thesis
  proof cases
    case 1
    have "of_int now - t - 300000 = of_int ((now - 300000) * 2 ^ 34 - k) / 2 ^ 34"
      by (simp add: 1 field_simps)
    moreover from this assms(3) have "(0::rat) < of_int ((now - 300000) * 2 ^ 34 - k)"
      by (simp add: zero_less_divide_iff)
    then have "1 \<le> (now - 300000) * 2 ^ 34 - k" by simp
    then have "(1::rat) \<le> of_int ((now - 300000) * 2 ^ 34 - k)"
      by (metis of_int_1 of_int_le_iff)
    then have "1 / 2 ^ 34 \<le> (of_int ((now - 300000) * 2 ^ 34 - k) :: rat) / 2 ^ 34"
      by (intro divide_right_mono) simp_all
    ultimately show ?thesis by linarith
  next
    case 2
    have "(562145::rat) \<le> of_int now"
      using assms(1) by (metis of_int_le_iff of_int_numeral)
    moreover have "(1::rat) / 2 ^ 34 \<le> 1" by simp
    ultimately show ?thesis using 2 by linarith
  qed
qed

lemma expired_exact:
  assumes "562145 \<le> now" and "coarse t"
  shows "js_gt (js_sub (Num (of_int now)) (Num t)) (Num 300000) = (300000 < of_int now - t)"
proof (cases "300000 < of_int now - t")
  case True
  with assms have "300000 + 1 / 2 ^ 34 \<le> of_int now - t" by (rule age_gap)
  then have "js_gt (round_double (of_int now - t)) (Num 300000)"
    by (rule round_double_gt_300000)
  with True show ?thesis by simp
next
  case False
  then have "of_int now - t \<le> 300000" by simp
  then have "\<not> js_gt (round_double (of_int now - t)) (Num 300000)"
    by (rule round_double_le_300000)
  with False show ?thesis by simp
qed

section \<open>The timestamp claim as a number\<close>

lemma coarse_zero: "coarse 0"
  by (simp add: coarse_def)

lemma coarse_one: "coarse 1"
  by (simp add: coarse_def)

lemma string_to_number_coarse: "string_to_number s = Num t \<Longrightarrow> coarse t"
  by (auto simp: string_to_number_def decimal_number_def Let_def coarse_zero
      dest: coarse_round_double split: if_splits option.splits prod.splits)

lemma to_number_coarse: "to_number v = Num t \<Longrightarrow> coarse t"
  by (cases v) (auto simp: coarse_zero coarse_one coarse_of_int dest: string_to_number_coarse
      split: if_splits)

text \<open>
  From a clock reading of 562145 ms on, the rounding of the difference does not change
  the outcome of the comparison with the bound.
\<close>

lemma timestamp_expired_exact:
  assumes "562145 \<le> now"
  shows "timestamp_expired now ts =
           (case to_number ts of
              NaN \<Rightarrow> False
            | Num t \<Rightarrow> 300000 < of_int now - t
            | PosInf \<Rightarrow> False
            | NegInf \<Rightarrow> True)"
proof (cases "to_number ts")
  case (Num t)
  then have "coarse t" by (rule to_number_coarse)
  with assms have "js_gt (js_sub (Num (of_int now)) (Num t)) (Num 300000)
                     = (300000 < of_int now - t)"
    by (rule expired_exact)
  with Num show ?thesis
    by (simp add: timestamp_expired_def HEADERS_MAX_TIMESTAMP_DIFF_def)
qed (simp_all add: timestamp_expired_def HEADERS_MAX_TIMESTAMP_DIFF_def)

lemma webhook_timestamp: "string_to_number ''1700000000000'' = Num 1700000000000"
  by (simp add: number_eval Let_def round_double_numeral)

lemma webhook_timestamp_exponent: "string_to_number ''1.7e12'' = Num 1700000000000"
  by (simp add: number_eval Let_def round_double_numeral)

lemma webhook_timestamp_fresh:
  "\<not> timestamp_expired 1700000000000 (JStr ''1700000000000'')"
  by (simp add: timestamp_expired_exact webhook_timestamp)

section \<open>Header validation: the presence checks\<close>

text \<open>
  Claim C2. The validation should run the checks algorithm, header count, type, key-id
  presence, key-id match, URI presence, URI match, user-name presence, nonce presence,
  timestamp presence and timestamp freshness, and report the first that fails. The
  presence tests for the URI, the nonce and the timestamp read the constant claim names,
  which are never undefined, so these three checks never fail: the seven-claim header
  without a timestamp claim is accepted, and the callback is not invoked.
\<close>

theorem missing_timestamp_accepted:
  "isJWSHeaderValid header_without_timestamp ''sbpb_abc'' ''https://example.com/hook''
     1700000000000 = (True, [])"
  by (simp add: isJWSHeaderValid_def header_without_timestamp_def reject_def js_eval header_eval
      timestamp_expired_def)

text \<open>No header at all is ever reported with \<open>Missing nonce\<close> or \<open>Missing timestamp\<close>.\<close>

lemma missing_nonce_never_reported:
  "isJWSHeaderValid header pk url now \<noteq> (False, [(Some (JWS ''Missing nonce''), JNull)])"
  by (simp add: isJWSHeaderValid_def reject_def)

lemma missing_timestamp_never_reported:
  "isJWSHeaderValid header pk url now \<noteq> (False, [(Some (JWS ''Missing timestamp''), JNull)])"
  by (simp add: isJWSHeaderValid_def reject_def)

text \<open>
  The other checks run in the order of the list, and the first that fails decides: the
  function returns false after one callback invocation with that check's message and
  \<^verbatim>\<open>null\<close>, and true without an invocation when none fails.
\<close>

lemma isJWSHeaderValid_first_failure:
  "isJWSHeaderValid header pk url now =
     (case first_failure (header_checks header pk url now) of
        None \<Rightarrow> (True, [])
      | Some msg \<Rightarrow> (False, [(Some (JWS msg), JNull)]))"
  by (simp add: isJWSHeaderValid_def header_checks_def reject_def)

section \<open>Header validation: the URI claim\<close>

text \<open>
  Claim C3. A header that lacks the URI claim and passes the four checks before it should
  be reported with \<open>Missing URI\<close>. The presence test reads the constant claim name, which
  is never undefined, so the header falls through to the comparison with the expected
  URL: for the seven-claim header without a URI claim the callback receives
  \<open>Invalid URI found\<close>.
\<close>

theorem missing_uri_reported_as_invalid:
  "isJWSHeaderValid header_without_uri ''sbpb_abc'' ''https://example.com/hook'' 1700000000000
     = (False, [(Some (JWS ''Invalid URI found''), JNull)])"
  by (simp add: isJWSHeaderValid_def header_without_uri_def reject_def js_eval header_eval)

text \<open>
  So it is for every header without a URI claim that passes the checks before: the
  comparison with the expected URL rejects it.
\<close>

lemma header_without_uri_outcome:
  assumes "own_prop header ''alg'' = JStr HEADERS_ALGORITHM"
    and "length (object_keys header) = 7"
    and "own_prop header ''typ'' = JStr HEADERS_TYPE"
    and "own_prop header ''kid'' \<noteq> JUndefined"
    and "own_prop header ''kid'' = JStr pk \<or> isLiveKey pk"
    and "own_prop header HEADERS_URI = JUndefined"
  shows "isJWSHeaderValid header pk url now =
           (False, [(Some (JWS ''Invalid URI found''), JNull)])"
  using assms by (auto simp: isJWSHeaderValid_def reject_def isUndefined_def)

text \<open>No header at all is ever reported with \<open>Missing URI\<close>.\<close>

lemma missing_uri_never_reported:
  "isJWSHeaderValid header pk url now \<noteq> (False, [(Some (JWS ''Missing URI''), JNull)])"
  by (simp add: isJWSHeaderValid_def reject_def)

section \<open>Header validation: freshness of the timestamp\<close>

text \<open>Rounding just above the bound, and the rounding of a tiny number.\<close>

lemma round_half_even_lower: "y - 1 / 2 \<le> of_int (round_half_even y)"
proof -
  have "y < of_int \<lfloor>y\<rfloor> + 1" by linarith
  then show ?thesis
    by (auto simp: round_half_even_def Let_def) (linarith+)?
qed

lemma nearest_lower: "a - 2 powi quantum a / 2 \<le> nearest a"
proof -
  have "(a / 2 powi quantum a - 1 / 2) * 2 powi quantum a
          \<le> of_int (round_half_even (a / 2 powi quantum a)) * 2 powi quantum a"
    by (intro mult_right_mono round_half_even_lower) simp
  moreover have "(a / 2 powi quantum a - 1 / 2) * 2 powi quantum a = a - 2 powi quantum a / 2"
    by (simp add: field_simps)
  ultimately show ?thesis by (simp add: nearest_def)
qed

lemma round_half_even_near:
  assumes "of_int k \<le> y" and "y < of_int k + 1 / 2"
  shows "round_half_even y = k"
proof -
  have "\<lfloor>y\<rfloor> = k"
    using assms by (intro floor_unique) linarith+
  with assms show ?thesis
    by (simp add: round_half_even_def Let_def)
qed

lemma nearest_just_above:
  assumes "300000 \<le> x" and "x < 300000 + 1 / 2 ^ 35"
  shows "nearest x = 300000"
proof -
  have pos: "0 < x" using assms(1) by simp
  have "2 powi 18 \<le> x" using assms(1) by simp
  then have lo: "18 \<le> binade x" using pos by (rule binade_ge [rotated])
  have "(1::rat) / 2 ^ 35 \<le> 1" by simp
  with assms(2) have "x < 2 powi 19" by simp
  then have "binade x < 19" using pos by (rule binade_less [rotated])
  with lo have e: "binade x = 18" by simp
  have "of_int (300000 * 2 ^ 34) \<le> x * 2 ^ 34"
    using assms(1) by simp
  moreover have "x * 2 ^ 34 < of_int (300000 * 2 ^ 34) + 1 / 2"
    using assms(2) by (simp add: field_simps)
  ultimately have "round_half_even (x * 2 ^ 34) = 300000 * 2 ^ 34"
    by (rule round_half_even_near)
  then show ?thesis
    by (simp add: nearest_at_18 [OF pos e])
qed

lemma nearest_tiny:
  assumes "0 < a" and "a < 1 / 2 ^ 40" and "1 / 2 ^ 100 \<le> a"
  shows "0 < nearest a" and "nearest a < 1 / 2 ^ 36"
proof -
  have "a < 2 powi (- 40)"
    using assms(2) by (simp add: power_int_minus field_simps)
  then have "binade a < - 40" using assms(1) by (rule binade_less [rotated])
  then have "quantum a \<le> - 92" by (simp add: quantum_def)
  then have "(2::rat) powi quantum a \<le> 2 powi (- 92)" by (rule two_powi_mono)
  then have q: "(2::rat) powi quantum a \<le> 1 / 2 ^ 92"
    by (simp add: power_int_minus field_simps)
  define c d e :: rat where "c = 1 / 2 ^ 92" and "d = 1 / 2 ^ 40" and "e = 1 / 2 ^ 36"
  have small: "c / 2 + d < e" by (simp add: c_def d_def e_def)
  have "(2::rat) powi quantum a \<le> c" and "a < d"
    using q assms(2) by (simp_all only: c_def d_def)
  with nearest_upper [of a] small have "nearest a < e" by linarith
  then show "nearest a < 1 / 2 ^ 36" by (simp only: e_def)
  have "2 powi (- 100) \<le> a"
    using assms(3) by (simp add: power_int_minus field_simps)
  then have "- 100 \<le> binade a" using assms(1) by (rule binade_ge [rotated])
  then have qa: "quantum a = binade a - 52" by (simp add: quantum_def)
  have "(2::rat) powi (binade a + (- 52)) = 2 powi binade a * 2 powi (- 52)"
    by (rule power_int_add) simp
  moreover have "binade a + (- 52) = binade a - 52" by simp
  ultimately have split: "(2::rat) powi quantum a = 2 powi binade a * 2 powi (- 52)"
    by (simp add: qa)
  define B c :: rat where "B = 2 powi binade a" and "c = 2 powi (- 52)"
  have "c \<le> 1" by (simp add: c_def power_int_minus field_simps)
  moreover have "0 \<le> B" by (simp add: B_def)
  ultimately have "B * c \<le> B * 1" by (intro mult_left_mono)
  moreover have "B \<le> a" unfolding B_def using assms(1) by (rule binade_bounds)
  moreover have "(2::rat) powi quantum a = B * c" by (simp only: split B_def c_def)
  ultimately have "(2::rat) powi quantum a \<le> a" by simp
  with nearest_lower [of a] assms(1) show "0 < nearest a" by linarith
qed

lemma round_double_small:
  assumes "0 < x" and "nearest x < 2 powi 19"
  shows "round_double x = Num (nearest x)"
proof -
  have "(2::rat) powi 19 \<le> 2 powi 1024" by (rule two_powi_mono) simp
  with assms(2) have "\<not> 2 powi 1024 \<le> nearest x" by linarith
  with assms(1) show ?thesis by (simp add: round_double_pos)
qed

lemma before_epoch_number:
  obtains v where "string_to_number ''-1e-20'' = Num (- v)" and "0 < v" and "v < 1 / 2 ^ 36"
proof -
  define a :: rat where "a = 1 / 10 ^ 20"
  have a: "0 < a" "a < 1 / 2 ^ 40" "1 / 2 ^ 100 \<le> a"
    by (simp_all add: a_def)
  note n = nearest_tiny [OF a]
  have "(1::rat) / 2 ^ 36 \<le> 2 powi 19" by simp
  with n(2) have "nearest a < 2 powi 19" by linarith
  have "(2::rat) powi 19 \<le> 2 powi 1024" by (rule two_powi_mono) simp
  with \<open>nearest a < 2 powi 19\<close> have "\<not> 2 powi 1024 \<le> nearest a" by linarith
  with a(1) have "round_double (- a) = Num (- nearest a)"
    by (simp add: round_double_neg)
  moreover have "string_to_number ''-1e-20'' = round_double (- a)"
    by (simp add: number_eval Let_def power_int_minus a_def)
  ultimately have "string_to_number ''-1e-20'' = Num (- nearest a)" by simp
  then show thesis using n by (rule that)
qed

lemma before_epoch_fresh: "\<not> timestamp_expired 300000 (JStr ''-1e-20'')"
proof -
  obtain v where s: "string_to_number ''-1e-20'' = Num (- v)" and v: "0 < v" "v < 1 / 2 ^ 36"
    by (rule before_epoch_number)
  define x where "x = 300000 + v"
  have "(1::rat) / 2 ^ 36 \<le> 1 / 2 ^ 35" by simp
  with v have x: "300000 \<le> x" "x < 300000 + 1 / 2 ^ 35"
    by (simp_all add: x_def)
  then have n: "nearest x = 300000" by (rule nearest_just_above)
  have "0 < x" using x(1) by simp
  moreover have "nearest x < 2 powi 19" by (simp add: n)
  ultimately have "round_double x = Num 300000"
    using n by (simp add: round_double_small)
  then show ?thesis
    by (simp add: timestamp_expired_def HEADERS_MAX_TIMESTAMP_DIFF_def s x_def)
qed

text \<open>
  Claim C6, as stated, fails when the clock is within minutes of the epoch. At the
  clock reading 300000 the header whose timestamp claim is \<^verbatim>\<open>-1e-20\<close> carries a
  timestamp below 0, more than 300000 ms older than the clock; the difference rounds to
  the double 300000, which does not exceed the bound, and the header is accepted.
\<close>

theorem rounding_absorbs_age:
  "js_gt (Num 0) (to_number (own_prop header_before_epoch HEADERS_TIMESTAMP))
   \<and> isJWSHeaderValid header_before_epoch ''sbpb_abc'' ''https://example.com/hook'' 300000
       = (True, [])"
proof -
  obtain v where s: "string_to_number ''-1e-20'' = Num (- v)" and v: "0 < v"
    by (rule before_epoch_number)
  have "js_gt (Num 0) (to_number (own_prop header_before_epoch HEADERS_TIMESTAMP))"
    using v by (simp add: header_before_epoch_def own_prop_def header_eval s)
  moreover have "isJWSHeaderValid header_before_epoch ''sbpb_abc'' ''https://example.com/hook''
                   300000 = (True, [])"
    using before_epoch_fresh
    by (simp add: isJWSHeaderValid_def header_before_epoch_def reject_def js_eval header_eval)
  ultimately show ?thesis by simp
qed

text \<open>
  Claim C6, amended. Let the clock read at least 562145 ms, as it does from 00:09:23 UTC
  on 1 January 1970 on. A header whose timestamp claim, converted to a number, is more
  than 300000 ms older than the clock is rejected, whatever text or value the claim is;
  when every other check passes the rejection carries \<open>Timestamp expired\<close>, and a
  header whose timestamp is not more than 300000 ms older than the clock is accepted
  without a callback invocation. A claim that does not convert to a number (NaN) is
  never found expired.
\<close>

theorem timestamp_window:
  assumes "562145 \<le> now"
  shows "(to_number (own_prop header HEADERS_TIMESTAMP) = NegInf
            \<or> (\<exists>t. to_number (own_prop header HEADERS_TIMESTAMP) = Num t
                  \<and> 300000 < of_int now - t)
          \<longrightarrow> fst (isJWSHeaderValid header pk url now) = False)
       \<and> (other_checks_pass header pk url \<longrightarrow>
            isJWSHeaderValid header pk url now =
              (case to_number (own_prop header HEADERS_TIMESTAMP) of
                 NaN \<Rightarrow> (True, [])
               | Num t \<Rightarrow>
                   if 300000 < of_int now - t
                   then (False, [(Some (JWS ''Timestamp expired''), JNull)])
                   else (True, [])
               | PosInf \<Rightarrow> (True, [])
               | NegInf \<Rightarrow> (False, [(Some (JWS ''Timestamp expired''), JNull)])))"
proof (intro conjI impI)
  assume "to_number (own_prop header HEADERS_TIMESTAMP) = NegInf
            \<or> (\<exists>t. to_number (own_prop header HEADERS_TIMESTAMP) = Num t
                  \<and> 300000 < of_int now - t)"
  then have "timestamp_expired now (own_prop header HEADERS_TIMESTAMP)"
    by (auto simp: timestamp_expired_exact [OF assms])
  then show "fst (isJWSHeaderValid header pk url now) = False"
    by (simp add: isJWSHeaderValid_def reject_def)
next
  assume "other_checks_pass header pk url"
  then have "isJWSHeaderValid header pk url now =
      (if timestamp_expired now (own_prop header HEADERS_TIMESTAMP)
       then (False, [(Some (JWS ''Timestamp expired''), JNull)]) else (True, []))"
    by (simp add: isJWSHeaderValid_def reject_def other_checks_pass_def isUndefined_def)
  then show "isJWSHeaderValid header pk url now =
              (case to_number (own_prop header HEADERS_TIMESTAMP) of
                 NaN \<Rightarrow> (True, [])
               | Num t \<Rightarrow>
                   if 300000 < of_int now - t
                   then (False, [(Some (JWS ''Timestamp expired''), JNull)])
                   else (True, [])
               | PosInf \<Rightarrow> (True, [])
               | NegInf \<Rightarrow> (False, [(Some (JWS ''Timestamp expired''), JNull)]))"
    by (simp add: timestamp_expired_exact [OF assms] split: jsnum.splits)
qed

theorem timestamp_window_witness:
  "isJWSHeaderValid webhook_header ''sbpb_abc'' ''https://example.com/hook'' 1700000300001
     = (False, [(Some (JWS ''Timestamp expired''), JNull)])
   \<and> isJWSHeaderValid webhook_header ''sbpb_abc'' ''https://example.com/hook'' 1700000300000
     = (True, [])
   \<and> isJWSHeaderValid webhook_header_exponent ''sbpb_abc'' ''https://example.com/hook''
       1700000300001
     = (False, [(Some (JWS ''Timestamp expired''), JNull)])"
proof -
  have ts: "to_number (own_prop webhook_header HEADERS_TIMESTAMP) = Num 1700000000000"
    by (simp add: webhook_header_def own_prop_def header_eval webhook_timestamp)
  have tx: "to_number (own_prop webhook_header_exponent HEADERS_TIMESTAMP) = Num 1700000000000"
    by (simp add: webhook_header_exponent_def own_prop_def header_eval
        webhook_timestamp_exponent)
  have ok: "other_checks_pass webhook_header ''sbpb_abc'' ''https://example.com/hook''"
    by (simp add: other_checks_pass_def webhook_header_def js_eval header_eval)
  have okx: "other_checks_pass webhook_header_exponent ''sbpb_abc'' ''https://example.com/hook''"
    by (simp add: other_checks_pass_def webhook_header_exponent_def js_eval header_eval)
  show ?thesis
    using timestamp_window [of 1700000300001 webhook_header "''sbpb_abc''"
        "''https://example.com/hook''"]
      timestamp_window [of 1700000300000 webhook_header "''sbpb_abc''"
        "''https://example.com/hook''"]
      timestamp_window [of 1700000300001 webhook_header_exponent "''sbpb_abc''"
        "''https://example.com/hook''"] ok okx
    by (simp add: ts tx)
qed

text \<open>
  The bound on the clock cannot be lowered. At the clock reading 562144 the timestamp
  claim \<^verbatim>\<open>262143.99999999997\<close> reads as the double \<open>2\<^sup>1\<^sup>8 - 2\<^sup>-\<^sup>3\<^sup>5\<close>, which is
  \<open>300000 + 2\<^sup>-\<^sup>3\<^sup>5\<close> ms older than the clock; the difference lies halfway between
  two doubles and rounds to 300000, and the header is accepted.
\<close>

lemma round_half_even_close:
  assumes "of_int k - 1 / 2 < y" and "y < of_int k + 1 / 2"
  shows "round_half_even y = k"
proof (cases "of_int k \<le> y")
  case True
  then show ?thesis using assms(2) by (rule round_half_even_near)
next
  case False
  then have "of_int (k - 1) \<le> y" and "y < of_int (k - 1) + 1"
    using assms(1) by simp_all
  then have "\<lfloor>y\<rfloor> = k - 1"
    by (rule floor_unique)
  with assms False show ?thesis
    by (simp add: round_half_even_def Let_def)
qed

lemma round_half_even_tie: "even k \<Longrightarrow> round_half_even (of_int k + 1 / 2) = k"
proof -
  assume "even k"
  have "\<lfloor>(of_int k :: rat) + 1 / 2\<rfloor> = k"
    by (intro floor_unique) simp_all
  with \<open>even k\<close> show ?thesis
    by (simp add: round_half_even_def Let_def)
qed

lemma binade_eq: "0 < q \<Longrightarrow> 2 powi n \<le> q \<Longrightarrow> q < 2 powi (n + 1) \<Longrightarrow> binade q = n"
  using binade_ge [of q n] binade_less [of q "n + 1"] by simp

lemma edge_number: "string_to_number ''262143.99999999997'' = Num (9007199254740991 / 2 ^ 35)"
proof -
  define a :: rat where "a = 26214399999999997 / 10 ^ 11"
  have pos: "0 < a" by (simp add: a_def)
  have "binade a = 17"
    using pos by (rule binade_eq) (simp_all add: a_def)
  then have q: "quantum a = - 35" by (simp add: quantum_def)
  have "round_half_even (a * 2 ^ 35) = 9007199254740991"
    by (rule round_half_even_close) (simp_all add: a_def)
  then have n: "nearest a = 9007199254740991 / 2 ^ 35"
    by (simp add: nearest_def q power_int_minus field_simps)
  then have "nearest a < 2 powi 19" by simp
  with pos have "round_double a = Num (nearest a)" by (rule round_double_small)
  moreover have "string_to_number ''262143.99999999997'' = round_double a"
    by (simp add: number_eval Let_def power_int_minus a_def)
  ultimately show ?thesis by (simp add: n)
qed

lemma nearest_tie:
  "nearest (300000 + 1 / 2 ^ 35) = 300000"
proof -
  define x :: rat where "x = 300000 + 1 / 2 ^ 35"
  have pos: "0 < x" by (simp add: x_def)
  have e: "binade x = 18"
    using pos by (rule binade_eq) (simp_all add: x_def)
  have "x * 2 ^ 34 = of_int (300000 * 2 ^ 34) + 1 / 2"
    by (simp add: x_def field_simps)
  moreover have "even (300000 * 2 ^ 34 :: int)" by simp
  ultimately have "round_half_even (x * 2 ^ 34) = 300000 * 2 ^ 34"
    by (simp only: round_half_even_tie)
  then have "nearest x = 300000"
    by (simp add: nearest_at_18 [OF pos e])
  then show ?thesis by (simp only: x_def)
qed

lemma edge_fresh: "\<not> timestamp_expired 562144 (JStr ''262143.99999999997'')"
proof -
  define x :: rat where "x = 300000 + 1 / 2 ^ 35"
  have n: "nearest x = 300000"
    unfolding x_def by (rule nearest_tie)
  have "0 < x" by (simp add: x_def)
  moreover have "nearest x < 2 powi 19" by (simp add: n)
  ultimately have r: "round_double x = Num 300000"
    using n by (simp add: round_double_small)
  have d: "of_int 562144 - 9007199254740991 / 2 ^ 35 = x"
    by (simp add: x_def)
  have "timestamp_expired 562144 (JStr ''262143.99999999997'') =
          js_gt (js_sub (Num (of_int 562144)) (Num (9007199254740991 / 2 ^ 35))) (Num 300000)"
    by (simp add: timestamp_expired_def HEADERS_MAX_TIMESTAMP_DIFF_def edge_number)
  also have "\<dots> = js_gt (round_double x) (Num 300000)"
    by (simp only: js_sub.simps d)
  finally show ?thesis by (simp add: r)
qed

lemma clock_bound_sharp:
  "to_number (own_prop header_at_edge HEADERS_TIMESTAMP) = Num (9007199254740991 / 2 ^ 35)
   \<and> 300000 < (562144::rat) - 9007199254740991 / 2 ^ 35
   \<and> isJWSHeaderValid header_at_edge ''sbpb_abc'' ''https://example.com/hook'' 562144
       = (True, [])"
proof -
  have "to_number (own_prop header_at_edge HEADERS_TIMESTAMP)
          = Num (9007199254740991 / 2 ^ 35)"
    by (simp add: header_at_edge_def own_prop_def header_eval edge_number)
  moreover have "isJWSHeaderValid header_at_edge ''sbpb_abc'' ''https://example.com/hook''
                   562144 = (True, [])"
    using edge_fresh
    by (simp add: isJWSHeaderValid_def header_at_edge_def reject_def js_eval header_eval)
  ultimately show ?thesis by simp
qed

section \<open>Header validation: the key id and live keys\<close>

text \<open>
  Claim C7. For a header that passes the algorithm, count, type and key-id presence
  checks and whose key id differs from the caller's public key: the validation rejects
  with \<open>Incorrect Key ID\<close> if and only if the public key is not a live key; with a live
  key the outcome is that of the checks from the URI presence check onwards.
\<close>

theorem key_id_mismatch:
  assumes "own_prop header ''alg'' = JStr HEADERS_ALGORITHM"
    and "length (object_keys header) = 7"
    and "own_prop header ''typ'' = JStr HEADERS_TYPE"
    and "own_prop header ''kid'' \<noteq> JUndefined"
    and "own_prop header ''kid'' \<noteq> JStr pk"
  shows "(isJWSHeaderValid header pk url now = (False, [(Some (JWS ''Incorrect Key ID''), JNull)]))
           = (\<not> isLiveKey pk)
       \<and> (isLiveKey pk \<longrightarrow>
            isJWSHeaderValid header pk url now =
              (case first_failure (drop 5 (header_checks header pk url now)) of
                 None \<Rightarrow> (True, [])
               | Some msg \<Rightarrow> (False, [(Some (JWS msg), JNull)])))"
  using assms
  by (simp add: isJWSHeaderValid_def reject_def header_checks_def isUndefined_def)

theorem key_id_mismatch_witness:
  "isJWSHeaderValid webhook_header ''sbpb_xyz'' ''https://example.com/hook'' 1700000000000
     = (False, [(Some (JWS ''Incorrect Key ID''), JNull)])
   \<and> isJWSHeaderValid webhook_header ''lvpb_xyz'' ''https://example.com/hook'' 1700000000000
     = (True, [])"
proof -
  have a: "own_prop webhook_header ''alg'' = JStr HEADERS_ALGORITHM"
    and n: "length (object_keys webhook_header) = 7"
    and t: "own_prop webhook_header ''typ'' = JStr HEADERS_TYPE"
    and k: "own_prop webhook_header ''kid'' \<noteq> JUndefined"
    and sb: "own_prop webhook_header ''kid'' \<noteq> JStr ''sbpb_xyz''"
    and lv: "own_prop webhook_header ''kid'' \<noteq> JStr ''lvpb_xyz''"
    by (simp_all add: webhook_header_def js_eval header_eval)
  have nl: "\<not> isLiveKey ''sbpb_xyz''" and l: "isLiveKey ''lvpb_xyz''"
    by (simp_all add: isLiveKey_def)
  have rest: "first_failure (drop 5 (header_checks webhook_header ''lvpb_xyz''
                ''https://example.com/hook'' 1700000000000)) = None"
    using webhook_timestamp_fresh
    by (simp add: header_checks_def webhook_header_def js_eval header_eval)
  show ?thesis
    using key_id_mismatch [OF a n t k sb, of "''https://example.com/hook''" 1700000000000]
      key_id_mismatch [OF a n t k lv, of "''https://example.com/hook''" 1700000000000] nl l rest
    by simp
qed

section \<open>The Signer's header\<close>

lemma own_prop_obj_set:
  "own_prop (obj_set obj k v) k' = (if k' = k then v else own_prop obj k')"
  by (induction obj) (auto simp: own_prop_def)







lemma jwsHeader_kid: "own_prop (jwsHeader rt a ps uri) ''kid'' = key_value (publicKey a)"
  by (simp add: jwsHeader_def Let_def own_prop_obj_set header_eval) (simp add: own_prop_def)







section \<open>Signing and decoding\<close>

text \<open>
  Claim C5. The Signer throws exactly when \<open>params\<close> is \<^verbatim>\<open>undefined\<close> or
  \<^verbatim>\<open>null\<close> or the private key is missing. Otherwise it returns an envelope, and
  decoding that envelope recovers a header whose \<open>kid\<close> claim is \<open>auth.publicKey\<close> and a
  payload equal to the parameters that were signed.
\<close>

theorem sign_decode_roundtrip:
  "(nullish ps \<or> privateKey a = None \<longrightarrow> getJWSSignature rt a ps uri = Inl TypeError)
   \<and> (\<not> nullish ps \<and> privateKey a \<noteq> None \<longrightarrow>
        (\<exists>signed env. getJWSSignature rt a ps uri = Inr signed
           \<and> decodeSignature signed = Some env
           \<and> own_prop (env_header env) ''kid'' = key_value (publicKey a)
           \<and> env_payload env = ps))"
  by (auto simp: getJWSSignature_def decodeSignature_def jws_decode_def jws_sign_def
      jwsHeader_kid)

theorem sign_decode_roundtrip_witness:
  "\<exists>signed env.
      getJWSSignature sample_runtime sample_auth payment_params
        ''https://sandbox.simplify.com/v1/api/payment'' = Inr signed
      \<and> decodeSignature signed = Some env
      \<and> own_prop (env_header env) ''kid'' = JStr ''sbpb_abc''
      \<and> env_payload env = payment_params"
proof -
  have p: "\<not> nullish payment_params \<and> privateKey sample_auth \<noteq> None"
    by (simp add: payment_params_def sample_auth_def nullish_def)
  have k: "key_value (publicKey sample_auth) = JStr ''sbpb_abc''"
    by (simp add: key_value_def sample_auth_def)
  show ?thesis
    using sign_decode_roundtrip [of payment_params sample_auth sample_runtime
        "''https://sandbox.simplify.com/v1/api/payment''"] p k
    by simp
qed

section \<open>The query of a list request\<close>

lemma map_insort_key:
  "map g (insort_key (\<lambda>a. f (g a)) x xs) = insort_key f (g x) (map g xs)"
  by (induction xs) simp_all

lemma map_sort_key: "map g (sort_key (\<lambda>a. f (g a)) xs) = sort_key f (map g xs)"
  by (induction xs) (simp_all add: map_insort_key)

lemma own_keys_distinct: "distinct (map fst kvs) \<Longrightarrow> own_keys kvs = map fst kvs"
  by (simp add: own_keys_def distinct_remdups_id)

lemma map_fst_for_in_entries:
  assumes "distinct (map fst es)"
  shows "map fst (for_in_entries es) = object_keys es"
proof -
  have "map fst (sort_key (\<lambda>e. index_rank (fst e)) (filter (\<lambda>e. is_index (fst e)) es))
          = sort_key index_rank (filter is_index (map fst es))"
    by (simp add: map_sort_key filter_map comp_def)
  moreover have "map fst (filter (\<lambda>e. \<not> is_index (fst e)) es)
          = filter (\<lambda>k. \<not> is_index k) (map fst es)"
    by (simp add: filter_map comp_def)
  ultimately show ?thesis
    by (simp add: for_in_entries_def object_keys_def own_keys_distinct [OF assms])
qed

lemma set_for_in_entries: "set (for_in_entries es) = set es"
  by (auto simp: for_in_entries_def)

lemma for_in_entries_plain:
  "list_all (\<lambda>e. \<not> is_index (fst e)) es \<Longrightarrow> for_in_entries es = es"
  by (simp add: for_in_entries_def list_all_iff filter_empty_conv filter_id_conv)

lemma own_prop_distinct:
  "distinct (map fst kvs) \<Longrightarrow> (k, v) \<in> set kvs \<Longrightarrow> own_prop kvs k = v"
  by (simp add: own_prop_def)

lemma for_in_map:
  assumes "mapping_entries m = Some es"
  shows "(if \<not> isUndefined m then map (\<lambda>k. f k (get m k)) (for_in_keys m) else [])
           = map (\<lambda>(k, v). f k v) (for_in_entries es)"
proof (cases m)
  case JUndefined
  with assms show ?thesis
    by (simp add: mapping_entries_def isUndefined_def for_in_entries_def)
next
  case (JObj kvs)
  with assms have d: "distinct (map fst kvs)" and e: "es = kvs"
    by (auto simp: mapping_entries_def split: if_splits)
  have "map (\<lambda>k. f k (own_prop kvs k)) (map fst (for_in_entries kvs))
          = map (\<lambda>(k, v). f k v) (for_in_entries kvs)"
    using own_prop_distinct [OF d] by (auto simp: set_for_in_entries)
  with JObj d e show ?thesis
    by (simp add: isUndefined_def map_fst_for_in_entries)
qed (use assms in \<open>simp_all add: mapping_entries_def\<close>)

text \<open>
  Claim C9, as stated, fails for a mapping with a key that is an array index: for the
  filter built as \<^verbatim>\<open>{name: 'x', '1': 'y'}\<close> the term of the key \<^verbatim>\<open>1\<close>, inserted
  last, comes first.
\<close>

theorem index_key_term_first:
  "list_query index_key_params = [''filter[1]=y'', ''filter[name]=x'']
   \<and> getURI sample_runtime ''sbpb_abc'' ''customer'' ''list'' index_key_params =
       Inr (url_parse sample_runtime
              ''https://sandbox.simplify.com/v1/api/customer?filter[1]=y&filter[name]=x'')"
proof -
  have k: "object_keys [(''name'', JStr ''x''), (''1'', JStr ''y'')] = [''1'', ''name'']"
    by (simp add: object_keys_def own_keys_def is_index_def array_index_def index_rank_def
        all_digits_def is_digit_def)
  have q: "list_query index_key_params = [''filter[1]=y'', ''filter[name]=x'']"
    by (simp add: list_query_def index_key_params_def own_prop_def isUndefined_def k)
  have "\<not> nullish index_key_params"
    by (simp add: index_key_params_def nullish_def)
  then show ?thesis
    by (simp add: q getURI_def Let_def isLiveKey_def API_BASE_SANDBOX_URL_def)
qed

text \<open>
  Claim C9, amended. For a \<open>list\<close> action the URI is \<^verbatim>\<open>url.parse\<close> of the text made of
  the base URL of the key's environment, the domain type, and the query terms in the
  fixed order \<open>max\<close> (if present), \<open>offset\<close> (if present), one
  \<^verbatim>\<open>filter[key]=value\<close> term per entry of \<open>params.filter\<close>, then one
  \<^verbatim>\<open>sorting[key]=value\<close> term per entry of \<open>params.sorting\<close>. The entries of each
  mapping come in the order of enumeration: entries whose key is an array index first, by
  ascending index, then the other entries in the order of their insertion; this is the
  insertion order when no key is an array index. An absent field contributes no term,
  and without terms no \<^verbatim>\<open>?\<close> is appended.
\<close>

theorem list_query_order:
  assumes "\<not> nullish ps"
    and "mapping_entries (get ps ''filter'') = Some fs"
    and "mapping_entries (get ps ''sorting'') = Some ss"
  shows "getURI rt pk dt ''list'' ps =
           Inr (url_parse rt
                  ((if isLiveKey pk then API_BASE_LIVE_URL else API_BASE_SANDBOX_URL) @ ''/'' @ dt
                   @ query_suffix (optional_term ''max'' ps @ optional_term ''offset'' ps
                                   @ entry_terms ''filter'' (for_in_entries fs)
                                   @ entry_terms ''sorting'' (for_in_entries ss))))
       \<and> (list_all (\<lambda>e. \<not> is_index (fst e)) fs \<longrightarrow> for_in_entries fs = fs)
       \<and> (list_all (\<lambda>e. \<not> is_index (fst e)) ss \<longrightarrow> for_in_entries ss = ss)"
proof -
  have m: "(if \<not> isUndefined (get ps ''max'') then [''max='' @ to_string (get ps ''max'')] else [])
             = optional_term ''max'' ps"
    by (cases "get ps ''max''") (simp_all add: optional_term_def isUndefined_def)
  have o: "(if \<not> isUndefined (get ps ''offset'')
            then [''offset='' @ to_string (get ps ''offset'')] else [])
             = optional_term ''offset'' ps"
    by (cases "get ps ''offset''") (simp_all add: optional_term_def isUndefined_def)
  have f: "(if \<not> isUndefined (get ps ''filter'')
            then map (\<lambda>filterProp. ''filter['' @ filterProp @ '']=''
                          @ to_string (get (get ps ''filter'') filterProp))
                     (for_in_keys (get ps ''filter''))
            else []) = entry_terms ''filter'' (for_in_entries fs)"
    using for_in_map [OF assms(2), of "\<lambda>k v. ''filter['' @ k @ '']='' @ to_string v"]
    by (simp add: entry_terms_def)
  have s: "(if \<not> isUndefined (get ps ''sorting'')
            then map (\<lambda>sortableProp. ''sorting['' @ sortableProp @ '']=''
                          @ to_string (get (get ps ''sorting'') sortableProp))
                     (for_in_keys (get ps ''sorting''))
            else []) = entry_terms ''sorting'' (for_in_entries ss)"
    using for_in_map [OF assms(3), of "\<lambda>k v. ''sorting['' @ k @ '']='' @ to_string v"]
    by (simp add: entry_terms_def)
  have q: "list_query ps = optional_term ''max'' ps @ optional_term ''offset'' ps
                @ entry_terms ''filter'' (for_in_entries fs)
                @ entry_terms ''sorting'' (for_in_entries ss)"
    by (simp only: list_query_def m o f s)
  have "getURI rt pk dt ''list'' ps =
          Inr (url_parse rt
                 (let uri = (if isLiveKey pk then API_BASE_LIVE_URL else API_BASE_SANDBOX_URL)
                            @ ''/'' @ dt
                  in if length (list_query ps) > 0 then uri @ ''?'' @ join ''&'' (list_query ps)
                     else uri))"
    using assms(1) by (simp add: getURI_def Let_def)
  then have "getURI rt pk dt ''list'' ps =
           Inr (url_parse rt
                  ((if isLiveKey pk then API_BASE_LIVE_URL else API_BASE_SANDBOX_URL) @ ''/'' @ dt
                   @ query_suffix (optional_term ''max'' ps @ optional_term ''offset'' ps
                                   @ entry_terms ''filter'' (for_in_entries fs)
                                   @ entry_terms ''sorting'' (for_in_entries ss))))"
    by (simp add: q Let_def query_suffix_def)
  then show ?thesis
    by (simp add: for_in_entries_plain)
qed

theorem list_query_order_witness:
  "getURI sample_runtime ''sbpb_abc'' ''customer'' ''list'' list_params =
     Inr (url_parse sample_runtime
            ''https://sandbox.simplify.com/v1/api/customer?max=10&offset=0&filter[text]=John'')"
proof -
  have n: "\<not> nullish list_params"
    by (simp add: list_params_def nullish_def)
  have f: "mapping_entries (get list_params ''filter'') = Some [(''text'', JStr ''John'')]"
    by (simp add: list_params_def mapping_entries_def own_prop_def)
  have s: "mapping_entries (get list_params ''sorting'') = Some []"
    by (simp add: list_params_def mapping_entries_def own_prop_def)
  have t: "optional_term ''max'' list_params = [''max=10'']"
    "optional_term ''offset'' list_params = [''offset=0'']"
    by (simp_all add: list_params_def optional_term_def own_prop_def number_to_string_def
        digit_char_def Abs_safe_int_inverse)
  have e: "for_in_entries [(''text'', JStr ''John'')] = [(''text'', JStr ''John'')]"
    "for_in_entries [] = []"
    by (simp_all add: for_in_entries_def is_index_def array_index_def all_digits_def
        is_digit_def)
  show ?thesis
    using list_query_order [OF n f s, of sample_runtime "''sbpb_abc''" "''customer''"] t
    by (simp add: e entry_terms_def query_suffix_def isLiveKey_def API_BASE_SANDBOX_URL_def)
qed

section \<open>The dispatcher\<close>

lemma areAPIKeysSet_Some:
  "publicKey a = Some pk \<Longrightarrow> privateKey a = Some sk \<Longrightarrow> areAPIKeysSet a = (True, [])"
  by (simp add: areAPIKeysSet_def key_value_def isUndefined_def)

lemma getJWSSignature_Some:
  "\<not> nullish ps \<Longrightarrow> privateKey a = Some sk \<Longrightarrow>
     getJWSSignature rt a ps uri =
       Inr (Compact \<lparr>env_header = jwsHeader rt a ps uri, env_payload = ps,
              env_signature = HS256 (Base64_decoded sk) (jwsHeader rt a ps uri) ps\<rparr>)"
  by (simp add: getJWSSignature_def jws_sign_def)

lemma getURI_defined: "\<not> nullish ps \<Longrightarrow> \<exists>uri. getURI rt pk dt act ps = Inr uri"
  by (simp add: getURI_def Let_def)

lemma execute_sent:
  assumes "publicKey (auth opts) = Some pk" and "privateKey (auth opts) = Some sk"
    and "execute_route rt pk opts = Inr (uri, m, ps)" and "\<not> nullish ps"
  shows "sent (execute rt opts events) =
           Some (getRequestOptions m
                   (Compact \<lparr>env_header = jwsHeader rt (auth opts) ps (href uri),
                      env_payload = ps,
                      env_signature =
                        HS256 (Base64_decoded sk) (jwsHeader rt (auth opts) ps (href uri)) ps\<rparr>)
                   uri,
                 if m = Some ''POST'' \<or> m = Some ''PUT''
                 then Some (Compact \<lparr>env_header = jwsHeader rt (auth opts) ps (href uri),
                        env_payload = ps,
                        env_signature =
                          HS256 (Base64_decoded sk) (jwsHeader rt (auth opts) ps (href uri)) ps\<rparr>)
                 else None)"
  using assms
  by (simp add: execute_def areAPIKeysSet_Some getJWSSignature_Some Let_def
      getRequestOptions_def split: prod.splits)

text \<open>
  Claim C8. For a resource other than \<open>accessToken\<close>, with both keys set and parameters
  that are not \<^verbatim>\<open>undefined\<close> or \<^verbatim>\<open>null\<close>, \<open>execute\<close> hands a request to the
  transport whose method is \<open>getHttpMethod\<close> of the action: POST for \<open>create\<close>, GET for
  \<open>show\<close> and \<open>list\<close>, PUT for \<open>update\<close>, DELETE for \<open>delete\<close>.
\<close>

theorem execute_http_method:
  assumes "domainType opts \<noteq> ''accessToken''"
    and "publicKey (auth opts) = Some pk" and "privateKey (auth opts) = Some sk"
    and "\<not> nullish (params opts)"
  shows "(\<exists>ro body. sent (execute rt opts events) = Some (ro, body)
            \<and> opt_method ro = getHttpMethod (action opts))
       \<and> getHttpMethod ''create'' = Some ''POST''
       \<and> getHttpMethod ''show'' = Some ''GET''
       \<and> getHttpMethod ''list'' = Some ''GET''
       \<and> getHttpMethod ''update'' = Some ''PUT''
       \<and> getHttpMethod ''delete'' = Some ''DELETE''"
proof -
  obtain uri where u: "getURI rt pk (domainType opts) (action opts) (params opts) = Inr uri"
    using getURI_defined [OF assms(4)] by blast
  have r: "execute_route rt pk opts = Inr (uri, getHttpMethod (action opts), params opts)"
    using assms(1) u by (simp add: execute_route_def)
  have "\<exists>ro body. sent (execute rt opts events) = Some (ro, body)
            \<and> opt_method ro = getHttpMethod (action opts)"
    using execute_sent [OF assms(2,3) r assms(4)] by (simp add: getRequestOptions_def)
  then show ?thesis
    by (simp add: getHttpMethod_def)
qed

theorem execute_http_method_witness:
  "\<exists>ro body. sent (execute sample_runtime payment_request []) = Some (ro, body)
      \<and> opt_method ro = Some ''POST''"
proof -
  have d: "domainType payment_request \<noteq> ''accessToken''"
    and k: "publicKey (auth payment_request) = Some ''sbpb_abc''"
    and s: "privateKey (auth payment_request) = Some ''c2VjcmV0''"
    and n: "\<not> nullish (params payment_request)"
    and a: "action payment_request = ''create''"
    by (simp_all add: payment_request_def sample_auth_def payment_params_def nullish_def)
  show ?thesis
    using execute_http_method [OF d k s n, of sample_runtime "[]"] a by auto
qed

section \<open>Requests for access tokens\<close>

lemma access_token_route:
  assumes "domainType opts = ''accessToken''"
    and "execute_route rt pk opts = Inr (uri, m, ps)"
  shows "m = Some ''POST'' \<and> uri = getAccessTokenURI rt (action opts)
         \<and> getAccessTokenParams (action opts) (params opts) = Inr ps"
  using assms by (auto simp: execute_route_def split: sum.splits)

lemma getAccessTokenURI_base:
  "\<exists>suffix. getAccessTokenURI rt act = url_parse rt (OAUTH_BASE_URL @ suffix)"
proof -
  have "OAUTH_BASE_URL = OAUTH_BASE_URL @ []" by simp
  then have "\<exists>suffix. url_parse rt OAUTH_BASE_URL = url_parse rt (OAUTH_BASE_URL @ suffix)"
    by metis
  then show ?thesis
    by (auto simp: getAccessTokenURI_def Let_def)
qed

lemma access_token_sent:
  assumes "domainType opts = ''accessToken''"
    and "publicKey (auth opts) = Some pk" and "privateKey (auth opts) = Some sk"
    and "getAccessTokenParams (action opts) (params opts) = Inr (JStr q)"
  shows "\<exists>ro env. sent (execute rt opts events) = Some (ro, Some (Compact env))
            \<and> opt_method ro = Some ''POST''
            \<and> addressed_to ro (getAccessTokenURI rt (action opts))
            \<and> env_payload env = JStr q"
proof -
  have r: "execute_route rt pk opts =
             Inr (getAccessTokenURI rt (action opts), Some ''POST'', JStr q)"
    using assms(1,4) by (simp add: execute_route_def)
  have n: "\<not> nullish (JStr q)"
    by (simp add: nullish_def)
  show ?thesis
    using execute_sent [OF assms(2,3) r n, of events]
    by (simp add: getRequestOptions_def addressed_to_def)
qed

lemma access_token_throws:
  assumes "domainType opts = ''accessToken''"
    and "publicKey (auth opts) = Some pk" and "privateKey (auth opts) = Some sk"
    and "getAccessTokenParams (action opts) (params opts) = Inl e
         \<or> getAccessTokenParams (action opts) (params opts) = Inr JUndefined"
  shows "sent (execute rt opts events) = None \<and> thrown (execute rt opts events) = Some TypeError"
proof -
  have "e = TypeError" if "getAccessTokenParams (action opts) (params opts) = Inl e"
    using that by (auto simp: getAccessTokenParams_def split: if_splits)
  with assms show ?thesis
    by (auto simp: execute_def areAPIKeysSet_Some execute_route_def getJWSSignature_def
        nullish_def)
qed

text \<open>
  Claim C10, as stated, fails in two ways. The query string is not URL-encoded: for an
  authorisation code \<^verbatim>\<open>a b\<close> and a redirect URI with a query of its own, the signed
  payload has the values as they are, with the space and the redirect URI's own
  \<^verbatim>\<open>&grant_type=x\<close>. And not every call has its parameters replaced by a query string: for
  the action \<open>show\<close> they become \<^verbatim>\<open>undefined\<close>, the Signer throws, and no request is
  made.
\<close>

theorem access_token_payload_raw:
  "signed_payload (execute sample_runtime code_request []) =
     Some (JStr ''grant_type=authorization_code&code=a b&redirect_uri=https://x.y/cb?a=1&grant_type=x'')
   \<and> \<not> url_encoded
         ''grant_type=authorization_code&code=a b&redirect_uri=https://x.y/cb?a=1&grant_type=x''
   \<and> signed_payload (execute sample_runtime show_token_request []) = None
   \<and> sent (execute sample_runtime show_token_request []) = None
   \<and> thrown (execute sample_runtime show_token_request []) = Some TypeError"
proof -
  have k: "publicKey (auth code_request) = Some ''sbpb_abc''"
    and s: "privateKey (auth code_request) = Some ''c2VjcmV0''"
    by (simp_all add: code_request_def sample_auth_def)
  have r: "execute_route sample_runtime ''sbpb_abc'' code_request =
             Inr (getAccessTokenURI sample_runtime ''create'', Some ''POST'',
                  JStr ''grant_type=authorization_code&code=a b&redirect_uri=https://x.y/cb?a=1&grant_type=x'')"
    by (simp add: execute_route_def code_request_def getAccessTokenParams_def nullish_def
        own_prop_def)
  have n: "\<not> nullish
      (JStr ''grant_type=authorization_code&code=a b&redirect_uri=https://x.y/cb?a=1&grant_type=x'')"
    by (simp add: nullish_def)
  have p: "signed_payload (execute sample_runtime code_request []) =
     Some (JStr ''grant_type=authorization_code&code=a b&redirect_uri=https://x.y/cb?a=1&grant_type=x'')"
    by (simp add: signed_payload_def execute_sent [OF k s r n])
  have u: "\<not> url_encoded
         ''grant_type=authorization_code&code=a b&redirect_uri=https://x.y/cb?a=1&grant_type=x''"
    by (simp add: url_encoded_def url_encoded_char_def)
  have d: "domainType show_token_request = ''accessToken''"
    and k': "publicKey (auth show_token_request) = Some ''sbpb_abc''"
    and s': "privateKey (auth show_token_request) = Some ''c2VjcmV0''"
    and g: "getAccessTokenParams (action show_token_request) (params show_token_request)
              = Inl TypeError
            \<or> getAccessTokenParams (action show_token_request) (params show_token_request)
              = Inr JUndefined"
    by (simp_all add: show_token_request_def sample_auth_def getAccessTokenParams_def)
  note t = access_token_throws [OF d k' s' g, of sample_runtime "[]"]
  then have "signed_payload (execute sample_runtime show_token_request []) = None"
    by (simp add: signed_payload_def)
  with p u t show ?thesis by simp
qed

text \<open>
  Claim C10, amended. For the domain type \<open>accessToken\<close> the method is POST and the URI
  is \<^verbatim>\<open>url.parse\<close> of a text that starts with the OAuth base URL, whatever the action.
  For \<open>create\<close>, \<open>refresh\<close> and \<open>revoke\<close> the request goes to the base URL followed by
  \<^verbatim>\<open>/token\<close>, \<^verbatim>\<open>/token\<close> and \<^verbatim>\<open>/revoke\<close>, and the payload of the signed
  envelope, which is the request body, is the query string that joins the original
  parameter values as they are, without encoding, instead of the parameters themselves.
  For \<open>create\<close> with parameters \<^verbatim>\<open>undefined\<close> or \<^verbatim>\<open>null\<close>, and for any other
  action, where the parameters become \<^verbatim>\<open>undefined\<close>, a TypeError is thrown and no
  request is made.
\<close>

theorem access_token_request:
  assumes "domainType opts = ''accessToken''"
    and "publicKey (auth opts) = Some pk" and "privateKey (auth opts) = Some sk"
  shows "(\<forall>uri m ps. execute_route rt pk opts = Inr (uri, m, ps) \<longrightarrow>
            m = Some ''POST'' \<and> (\<exists>suffix. uri = url_parse rt (OAUTH_BASE_URL @ suffix)))
       \<and> (action opts = ''create'' \<and> \<not> nullish (params opts) \<longrightarrow>
            (\<exists>ro env. sent (execute rt opts events) = Some (ro, Some (Compact env))
               \<and> opt_method ro = Some ''POST''
               \<and> addressed_to ro (url_parse rt (OAUTH_BASE_URL @ ''/token''))
               \<and> env_payload env =
                   JStr (''grant_type=authorization_code&code=''
                         @ to_string (get (params opts) ''authCode'')
                         @ ''&redirect_uri='' @ to_string (get (params opts) ''redirectUri''))))
       \<and> (action opts = ''refresh'' \<longrightarrow>
            (\<exists>ro env. sent (execute rt opts events) = Some (ro, Some (Compact env))
               \<and> opt_method ro = Some ''POST''
               \<and> addressed_to ro (url_parse rt (OAUTH_BASE_URL @ ''/token''))
               \<and> env_payload env =
                   JStr (''grant_type=refresh_token&refresh_token='' @ to_string (params opts))))
       \<and> (action opts = ''revoke'' \<longrightarrow>
            (\<exists>ro env. sent (execute rt opts events) = Some (ro, Some (Compact env))
               \<and> opt_method ro = Some ''POST''
               \<and> addressed_to ro (url_parse rt (OAUTH_BASE_URL @ ''/revoke''))
               \<and> env_payload env = JStr (''token='' @ to_string (params opts))))
       \<and> (action opts = ''create'' \<and> nullish (params opts)
            \<or> action opts \<noteq> ''create'' \<and> action opts \<noteq> ''refresh''
               \<and> action opts \<noteq> ''revoke'' \<longrightarrow>
            sent (execute rt opts events) = None
            \<and> thrown (execute rt opts events) = Some TypeError)"
proof (intro conjI allI impI)
  fix uri m ps
  assume "execute_route rt pk opts = Inr (uri, m, ps)"
  from access_token_route [OF assms(1) this]
  show "m = Some ''POST''" and "\<exists>suffix. uri = url_parse rt (OAUTH_BASE_URL @ suffix)"
    using getAccessTokenURI_base [of rt "action opts"] by simp_all
next
  assume a: "action opts = ''create'' \<and> \<not> nullish (params opts)"
  then have "getAccessTokenParams (action opts) (params opts) =
      Inr (JStr (''grant_type=authorization_code&code=''
                 @ to_string (get (params opts) ''authCode'')
                 @ ''&redirect_uri='' @ to_string (get (params opts) ''redirectUri'')))"
    by (simp add: getAccessTokenParams_def)
  from access_token_sent [OF assms this, of rt events] a
  show "\<exists>ro env. sent (execute rt opts events) = Some (ro, Some (Compact env))
               \<and> opt_method ro = Some ''POST''
               \<and> addressed_to ro (url_parse rt (OAUTH_BASE_URL @ ''/token''))
               \<and> env_payload env =
                   JStr (''grant_type=authorization_code&code=''
                         @ to_string (get (params opts) ''authCode'')
                         @ ''&redirect_uri='' @ to_string (get (params opts) ''redirectUri''))"
    by (simp add: getAccessTokenURI_def)
next
  assume a: "action opts = ''refresh''"
  then have "getAccessTokenParams (action opts) (params opts) =
      Inr (JStr (''grant_type=refresh_token&refresh_token='' @ to_string (params opts)))"
    by (simp add: getAccessTokenParams_def)
  from access_token_sent [OF assms this, of rt events] a
  show "\<exists>ro env. sent (execute rt opts events) = Some (ro, Some (Compact env))
               \<and> opt_method ro = Some ''POST''
               \<and> addressed_to ro (url_parse rt (OAUTH_BASE_URL @ ''/token''))
               \<and> env_payload env =
                   JStr (''grant_type=refresh_token&refresh_token='' @ to_string (params opts))"
    by (simp add: getAccessTokenURI_def)
next
  assume a: "action opts = ''revoke''"
  then have "getAccessTokenParams (action opts) (params opts) =
      Inr (JStr (''token='' @ to_string (params opts)))"
    by (simp add: getAccessTokenParams_def)
  from access_token_sent [OF assms this, of rt events] a
  show "\<exists>ro env. sent (execute rt opts events) = Some (ro, Some (Compact env))
               \<and> opt_method ro = Some ''POST''
               \<and> addressed_to ro (url_parse rt (OAUTH_BASE_URL @ ''/revoke''))
               \<and> env_payload env = JStr (''token='' @ to_string (params opts))"
    by (simp add: getAccessTokenURI_def)
next
  assume "action opts = ''create'' \<and> nullish (params opts)
            \<or> action opts \<noteq> ''create'' \<and> action opts \<noteq> ''refresh''
               \<and> action opts \<noteq> ''revoke''"
  then have "getAccessTokenParams (action opts) (params opts) = Inl TypeError
         \<or> getAccessTokenParams (action opts) (params opts) = Inr JUndefined"
    by (auto simp: getAccessTokenParams_def)
  from access_token_throws [OF assms this, of rt events]
  show "sent (execute rt opts events) = None"
    and "thrown (execute rt opts events) = Some TypeError"
    by simp_all
qed

theorem access_token_request_witness:
  "\<exists>ro env. sent (execute sample_runtime refresh_request []) = Some (ro, Some (Compact env))
      \<and> opt_method ro = Some ''POST''
      \<and> opt_host ro = Some ''www.simplify.com''
      \<and> opt_path ro = Some ''/commerce/oauth/token''
      \<and> env_payload env = JStr ''grant_type=refresh_token&refresh_token=rt_123''"
proof -
  have d: "domainType refresh_request = ''accessToken''"
    and k: "publicKey (auth refresh_request) = Some ''sbpb_abc''"
    and s: "privateKey (auth refresh_request) = Some ''c2VjcmV0''"
    and a: "action refresh_request = ''refresh''"
    and p: "params refresh_request = JStr ''rt_123''"
    by (simp_all add: refresh_request_def sample_auth_def)
  have u: "url_parse sample_runtime (OAUTH_BASE_URL @ ''/token'') =
             \<lparr>href = ''https://www.simplify.com/commerce/oauth/token'',
              protocol = Some ''https:'', hostname = Some ''www.simplify.com'', port = None,
              path = Some ''/commerce/oauth/token''\<rparr>"
    by (simp add: sample_runtime_def sample_url_parse_def OAUTH_BASE_URL_def Let_def)
  show ?thesis
    using access_token_request [OF d k s, of sample_runtime "[]"] a p
    by (auto simp: u addressed_to_def)
qed

section \<open>The completion callback\<close>

lemma on_end_calls:
  "c \<in> set (fst (on_end parsed)) \<Longrightarrow>
     fst c \<noteq> None \<and> snd c = JNull \<or> fst c = None \<and> \<not> nullish (snd c)"
  by (auto simp: on_end_def split: option.splits if_splits)

lemma on_error_calls:
  "c \<in> set (fst (on_error e)) \<Longrightarrow> fst c \<noteq> None \<and> snd c = JNull"
  by (auto simp: on_error_def split: if_splits)

lemma run_events_calls:
  "c \<in> set (fst (run_events evs)) \<Longrightarrow>
     fst c \<noteq> None \<and> snd c = JNull \<or> fst c = None \<and> \<not> nullish (snd c)"
proof (induction evs)
  case Nil
  then show ?case by simp
next
  case (Cons ev evs)
  obtain cs r where h: "(case ev of Response_end parsed \<Rightarrow> on_end parsed
                         | Request_error errorResponse \<Rightarrow> on_error errorResponse) = (cs, r)"
    by (cases "case ev of Response_end parsed \<Rightarrow> on_end parsed
                       | Request_error errorResponse \<Rightarrow> on_error errorResponse") auto
  have first: "fst d \<noteq> None \<and> snd d = JNull \<or> fst d = None \<and> \<not> nullish (snd d)"
    if "d \<in> set cs" for d
  proof (cases ev)
    case (Response_end parsed)
    with h that have "d \<in> set (fst (on_end parsed))" by simp
    then show ?thesis by (rule on_end_calls)
  next
    case (Request_error e)
    with h that have "d \<in> set (fst (on_error e))" by simp
    then show ?thesis using on_error_calls by blast
  qed
  from Cons.prems h have "c \<in> set cs \<or> c \<in> set (fst (run_events evs))"
    by (auto split: option.splits prod.splits)
  then show ?case
    using first Cons.IH by blast
qed

lemma areAPIKeysSet_calls:
  "c \<in> set (snd (areAPIKeysSet a)) \<Longrightarrow> fst c \<noteq> None \<and> snd c = JNull"
  by (auto simp: areAPIKeysSet_def split: if_splits)

lemma areAPIKeysSet_True: "areAPIKeysSet a = (True, cs) \<Longrightarrow> cs = []"
  by (auto simp: areAPIKeysSet_def split: if_splits)

lemma isJWSHeaderValid_calls:
  "c \<in> set (snd (isJWSHeaderValid header pk url now)) \<Longrightarrow> fst c \<noteq> None \<and> snd c = JNull"
  by (auto simp: isJWSHeaderValid_def reject_def split: if_splits)

lemma isJWSHeaderValid_True: "isJWSHeaderValid header pk url now = (True, cs) \<Longrightarrow> cs = []"
  by (auto simp: isJWSHeaderValid_def reject_def split: if_splits)

lemma execute_calls:
  assumes "c \<in> set (calls (execute rt opts events))"
  shows "fst c \<noteq> None \<and> snd c = JNull \<or> fst c = None \<and> \<not> nullish (snd c)"
proof (cases "areAPIKeysSet (auth opts)")
  case (Pair ok cs)
  show ?thesis
  proof (cases ok)
    case False
    with Pair assms have "c \<in> set (snd (areAPIKeysSet (auth opts)))"
      by (simp add: execute_def)
    then show ?thesis using areAPIKeysSet_calls by blast
  next
    case True
    with Pair have e: "cs = []" using areAPIKeysSet_True [of "auth opts" cs] by simp
    from assms Pair True e have "c \<in> set (fst (run_events events))"
      by (auto simp: execute_def Let_def split: option.splits sum.splits prod.splits)
    then show ?thesis by (rule run_events_calls)
  qed
qed

lemma areAPIKeysSet_pair_calls:
  "areAPIKeysSet a = (ok, cs) \<Longrightarrow> c \<in> set cs \<Longrightarrow> fst c \<noteq> None \<and> snd c = JNull"
  using areAPIKeysSet_calls [of c a] by simp

lemma isJWSHeaderValid_pair_calls:
  "isJWSHeaderValid header pk url now = (ok, cs) \<Longrightarrow> c \<in> set cs \<Longrightarrow>
     fst c \<noteq> None \<and> snd c = JNull"
  using isJWSHeaderValid_calls [of c header pk url now] by simp

lemma jwsDecode_calls:
  assumes "c \<in> set (fst (jwsDecode a ps now parsed))"
  shows "fst c \<noteq> None \<and> snd c = JNull \<or> fst c = None \<and> parsed = Some (snd c)"
  using assms
  by (auto simp: jwsDecode_def split: prod.splits bool.splits option.splits if_splits
      dest: isJWSHeaderValid_True areAPIKeysSet_True isJWSHeaderValid_pair_calls
        areAPIKeysSet_pair_calls)

lemma execute_run:
  assumes "publicKey (auth opts) = Some pk" and "privateKey (auth opts) = Some sk"
    and "execute_route rt pk opts = Inr (uri, m, ps)" and "\<not> nullish ps"
  shows "calls (execute rt opts events) = fst (run_events events)"
  using assms
  by (simp add: execute_def areAPIKeysSet_Some getJWSSignature_Some Let_def split: prod.splits)

lemma webhook_header_valid:
  "isJWSHeaderValid webhook_header ''sbpb_abc'' ''https://example.com/hook'' 1700000000000
     = (True, [])"
  using webhook_timestamp_fresh
  by (simp add: isJWSHeaderValid_def webhook_header_def reject_def js_eval header_eval)

text \<open>
  Claim C4, as stated, fails for \<open>jwsDecode\<close>: for an event with a valid header whose
  payload is the JSON text \<^verbatim>\<open>null\<close>, the callback is invoked with \<^verbatim>\<open>(null, null)\<close>.
\<close>

theorem jwsDecode_null_payload:
  "jwsDecode sample_auth null_event 1700000000000 (Some JNull) = ([(None, JNull)], None)"
  by (simp add: jwsDecode_def areAPIKeysSet_def key_value_def sample_auth_def null_event_def
      decodeSignature_def jws_decode_def webhook_header_valid isUndefined_def)

text \<open>
  Claim C4, amended. Every callback invocation by \<open>execute\<close> passes either an error
  and \<^verbatim>\<open>null\<close>, or \<^verbatim>\<open>null\<close> and a result that is neither \<^verbatim>\<open>null\<close> nor
  \<^verbatim>\<open>undefined\<close>. Every callback invocation by \<open>jwsDecode\<close> passes either an error and
  \<^verbatim>\<open>null\<close>, or \<^verbatim>\<open>null\<close> and the value that \<^verbatim>\<open>JSON.parse\<close> returned for the
  payload: the two arguments are never both populated, and both are \<^verbatim>\<open>null\<close> only
  when the payload is the JSON text \<^verbatim>\<open>null\<close>.
\<close>

theorem callback_contract:
  "(\<forall>c \<in> set (calls (execute rt opts events)).
       fst c \<noteq> None \<and> snd c = JNull \<or> fst c = None \<and> \<not> nullish (snd c))
   \<and> (\<forall>c \<in> set (fst (jwsDecode a ps now parsed)).
       fst c \<noteq> None \<and> snd c = JNull \<or> fst c = None \<and> parsed = Some (snd c))"
  using execute_calls jwsDecode_calls by blast

theorem callback_contract_witness:
  "calls (execute sample_runtime payment_request
            [Response_end (Some (JObj [(''id'', JStr ''abc'')]))])
     = [(None, JObj [(''id'', JStr ''abc'')])]
   \<and> \<not> nullish (JObj [(''id'', JStr ''abc'')])
   \<and> calls (execute sample_runtime payment_request
            [Response_end (Some (JObj [(''error'', JObj [])]))])
     = [(Some (API ''Error executing API call'' (JObj [(''error'', JObj [])])), JNull)]
   \<and> fst (jwsDecode sample_auth number_event 1700000000000 (Some (JNum (Abs_safe_int 42))))
     = [(None, JNum (Abs_safe_int 42))]"
proof -
  have k: "publicKey (auth payment_request) = Some ''sbpb_abc''"
    and s: "privateKey (auth payment_request) = Some ''c2VjcmV0''"
    and n: "\<not> nullish payment_params"
    by (simp_all add: payment_request_def sample_auth_def payment_params_def nullish_def)
  have r: "execute_route sample_runtime ''sbpb_abc'' payment_request =
             Inr (url_parse sample_runtime ''https://sandbox.simplify.com/v1/api/payment'',
                  Some ''POST'', payment_params)"
    by (simp add: execute_route_def payment_request_def getURI_def getHttpMethod_def
        isLiveKey_def API_BASE_SANDBOX_URL_def)
  have ok: "calls (execute sample_runtime payment_request
                [Response_end (Some (JObj [(''id'', JStr ''abc'')]))])
              = [(None, JObj [(''id'', JStr ''abc'')])]"
    by (simp add: execute_run [OF k s r n] on_end_def nullish_def isUndefined_def own_prop_def)
  have err: "calls (execute sample_runtime payment_request
                [Response_end (Some (JObj [(''error'', JObj [])]))])
              = [(Some (API ''Error executing API call'' (JObj [(''error'', JObj [])])), JNull)]"
    by (simp add: execute_run [OF k s r n] on_end_def nullish_def isUndefined_def own_prop_def)
  have dec: "fst (jwsDecode sample_auth number_event 1700000000000 (Some (JNum (Abs_safe_int 42))))
              = [(None, JNum (Abs_safe_int 42))]"
    by (simp add: jwsDecode_def areAPIKeysSet_def key_value_def sample_auth_def number_event_def
      decodeSignature_def jws_decode_def webhook_header_valid isUndefined_def)
  show ?thesis
    using callback_contract [of sample_runtime payment_request
        "[Response_end (Some (JObj [(''id'', JStr ''abc'')]))]"
        sample_auth number_event 1700000000000 "Some (JNum (Abs_safe_int 42))"] ok err dec
    by simp
qed

end
